theory Spec2Isabelle
  imports Complex_Main "HOL-Library.Char_ord" "HOL-Library.List_Lexorder"
begin

section \<open>Values exchanged with the node\<close>

text \<open>
  The program talks to the node through \<^verbatim>\<open>RpcClient.call\<close>, which either raises
  \<^verbatim>\<open>RuntimeError(message)\<close> or returns the decoded JSON result. A decoded JSON value
  is a Python object; dictionaries keep their insertion order, so they are association
  lists. A string is a list of characters, each a code point below 256. A Python float
  is modelled as a real number or NaN: the conversion of an integer rounds to the nearest
  double and raises \<^verbatim>\<open>OverflowError\<close> as Python does, while the arithmetic on floats is
  exact and infinities are not modelled.
\<close>

datatype pyfloat = Fl real | NaN

datatype json =
    JNull
  | JBool bool
  | JInt int
  | JFloat pyfloat
  | JStr string
  | JList "json list"
  | JDict "(string \<times> json) list"

datatype rpc_reply = Raise string | Result json

text \<open>The exceptions the program meets, with the text that \<^verbatim>\<open>str(e)\<close> gives.\<close>

datatype error =
    RuntimeError string
  | TypeError string
  | AttributeError string
  | ValueError
  | OverflowError
  | SystemExit string

text \<open>
  How a call ends: it returns, it raises, the node has not answered yet (the replies
  given to the model are used up while the program is still waiting: \<open>Starved\<close>), or
  the input leaves what is modelled (\<open>Unmodelled\<close>: an identifier or a ticket name that
  is a truthy value other than a string).
\<close>

datatype 'a outcome = Returned 'a | Raised error | Starved | Unmodelled

text \<open>\<^verbatim>\<open>type(x).__name__\<close>, as the messages of Python's own exceptions print it.\<close>

fun py_type_name :: "json \<Rightarrow> string" where
  "py_type_name JNull = ''NoneType''"
| "py_type_name (JBool b) = ''bool''"
| "py_type_name (JInt n) = ''int''"
| "py_type_name (JFloat f) = ''float''"
| "py_type_name (JStr s) = ''str''"
| "py_type_name (JList xs) = ''list''"
| "py_type_name (JDict d) = ''dict''"

text \<open>Python truthiness of a decoded value (\<^verbatim>\<open>x or {}\<close>, \<^verbatim>\<open>if not x\<close>).\<close>

fun truthy :: "json \<Rightarrow> bool" where
  "truthy JNull = False"
| "truthy (JBool b) = b"
| "truthy (JInt n) = (n \<noteq> 0)"
| "truthy (JFloat (Fl r)) = (r \<noteq> 0)"
| "truthy (JFloat NaN) = True"
| "truthy (JStr s) = (s \<noteq> [])"
| "truthy (JList xs) = (xs \<noteq> [])"
| "truthy (JDict d) = (d \<noteq> [])"

text \<open>\<^verbatim>\<open>d.get(k)\<close> on a dictionary: the value, or \<^verbatim>\<open>None\<close>.\<close>

definition dict_get :: "(string \<times> json) list \<Rightarrow> string \<Rightarrow> json" where
  "dict_get d k = (case map_of d k of None \<Rightarrow> JNull | Some v \<Rightarrow> v)"

text \<open>A type name between single quotes, as Python prints it in a message.\<close>

definition quoted :: "string \<Rightarrow> string" where
  "quoted s = [CHR 0x27] @ s @ [CHR 0x27]"

definition no_get_msg :: "json \<Rightarrow> string" where
  "no_get_msg x = quoted (py_type_name x) @ '' object has no attribute '' @ quoted ''get''"

text \<open>
  \<^verbatim>\<open>(x or {}).get(k)\<close>: a falsy \<^verbatim>\<open>x\<close> is replaced by the empty dictionary; a truthy
  value that is not a dictionary has no \<^verbatim>\<open>get\<close> and raises \<^verbatim>\<open>AttributeError\<close>.
\<close>

definition or_empty_get :: "json \<Rightarrow> string \<Rightarrow> error + json" where
  "or_empty_get x k =
     (if \<not> truthy x then Inr JNull
      else case x of
          JDict d \<Rightarrow> Inr (dict_get d k)
        | _ \<Rightarrow> Inl (AttributeError (no_get_msg x)))"

text \<open>The integer nearest to \<open>x\<close>, a tie going to the even one.\<close>

definition round_half_even :: "real \<Rightarrow> int" where
  "round_half_even x =
     (let f = \<lfloor>x\<rfloor>; d = x - of_int f
      in if d < 1 / 2 then f
         else if 1 / 2 < d then f + 1
         else if even f then f else f + 1)"

text \<open>
  Rounding to the nearest IEEE 754 double, ties to even. \<open>unit_of\<close> looks for the
  spacing \<open>u\<close> of the doubles around \<open>x\<close> (\<open>2\<^sup>5\<^sup>2 \<le> x / u < 2\<^sup>5\<^sup>3\<close>) in at most \<open>n\<close> steps;
  \<open>None\<close> stands for a value outside the normal doubles.
\<close>

fun unit_of :: "nat \<Rightarrow> real \<Rightarrow> real \<Rightarrow> real option" where
  "unit_of 0 x u = None"
| "unit_of (Suc n) x u =
     (if x / u < 2 ^ 52 then unit_of n x (u / 2)
      else if 2 ^ 53 \<le> x / u then unit_of n x (u * 2)
      else Some u)"

definition to_double :: "real \<Rightarrow> real option" where
  "to_double x =
     (if x = 0 then Some 0
      else case unit_of 1100 \<bar>x\<bar> 1 of
             None \<Rightarrow> None
           | Some u \<Rightarrow> Some (of_int (round_half_even (x / u)) * u))"

text \<open>
  \<^verbatim>\<open>float(n)\<close> for an integer: the nearest double, and \<^verbatim>\<open>OverflowError\<close> from
  \<open>2\<^sup>1\<^sup>0\<^sup>2\<^sup>4 - 2\<^sup>9\<^sup>7\<^sup>0\<close> on, where the nearest double would be \<open>2\<^sup>1\<^sup>0\<^sup>2\<^sup>4\<close>.
\<close>

definition int_to_float :: "int \<Rightarrow> error + pyfloat" where
  "int_to_float n =
     (if 2 ^ 1024 - 2 ^ 970 \<le> \<bar>n\<bar> then Inl OverflowError
      else case to_double (of_int n) of
             None \<Rightarrow> Inl OverflowError
           | Some d \<Rightarrow> Inr (Fl d))"

definition float_type_msg :: "json \<Rightarrow> string" where
  "float_type_msg v =
     ''float() argument must be a string or a real number, not '' @ py_type_name v"

text \<open>
  \<^verbatim>\<open>float(v)\<close>. The conversion of a string is a parameter \<open>sf\<close> (\<open>None\<close> when Python
  raises \<^verbatim>\<open>ValueError\<close>); \<^verbatim>\<open>None\<close>, lists and dictionaries raise \<^verbatim>\<open>TypeError\<close>; an
  integer too large for a float raises \<^verbatim>\<open>OverflowError\<close>.
\<close>

fun py_float :: "(string \<Rightarrow> pyfloat option) \<Rightarrow> json \<Rightarrow> error + pyfloat" where
  "py_float sf JNull = Inl (TypeError (float_type_msg JNull))"
| "py_float sf (JBool b) = Inr (Fl (if b then 1 else 0))"
| "py_float sf (JInt n) = int_to_float n"
| "py_float sf (JFloat f) = Inr f"
| "py_float sf (JStr s) = (case sf s of None \<Rightarrow> Inl ValueError | Some f \<Rightarrow> Inr f)"
| "py_float sf (JList xs) = Inl (TypeError (float_type_msg (JList xs)))"
| "py_float sf (JDict d) = Inl (TypeError (float_type_msg (JDict d)))"

text \<open>
  \<^verbatim>\<open>str.lower()\<close> on code points below 256: the letters A to Z, and the letters from
  192 to 222 other than the multiplication sign 215, move up by 32.
\<close>

definition lower_char :: "char \<Rightarrow> char" where
  "lower_char c =
     (case map_of (zip ''ABCDEFGHIJKLMNOPQRSTUVWXYZ'' ''abcdefghijklmnopqrstuvwxyz'') c of
        Some l \<Rightarrow> l
      | None \<Rightarrow>
          (let n = (of_char c :: nat)
           in if 192 \<le> n \<and> n \<le> 222 \<and> n \<noteq> 215 then char_of (n + 32) else c))"

definition lower :: "string \<Rightarrow> string" where
  "lower s = map lower_char s"

section \<open>Balance lookup\<close>

text \<open>
  The loop \<^verbatim>\<open>for k, v in bal_dict.items(): if k.lower() == currency.lower(): return float(v)\<close>
  of \<^verbatim>\<open>get_currency_balance\<close>; falling out of the loop gives \<open>None\<close>.
\<close>

fun balance_scan ::
  "(string \<Rightarrow> pyfloat option) \<Rightarrow> string \<Rightarrow> (string \<times> json) list \<Rightarrow> (error + pyfloat) option" where
  "balance_scan sf currency [] = None"
| "balance_scan sf currency ((k, v) # kvs) =
     (if lower k = lower currency then Some (py_float sf v)
      else balance_scan sf currency kvs)"

text \<open>The body of the \<^verbatim>\<open>try\<close> block of \<^verbatim>\<open>get_currency_balance\<close>.\<close>

definition get_currency_balance_body ::
  "(string \<Rightarrow> pyfloat option) \<Rightarrow> rpc_reply \<Rightarrow> string \<Rightarrow> error + pyfloat" where
  "get_currency_balance_body sf reply currency =
     (case reply of
        Raise msg \<Rightarrow> Inl (RuntimeError msg)
      | Result bal_dict \<Rightarrow>
          (case bal_dict of
             JDict d \<Rightarrow>
               (case map_of d currency of
                  Some v \<Rightarrow> py_float sf v
                | None \<Rightarrow>
                    (case balance_scan sf currency d of
                       Some r \<Rightarrow> r
                     | None \<Rightarrow> Inr (Fl 0)))
           | _ \<Rightarrow> Inr (Fl 0)))"

text \<open>\<^verbatim>\<open>get_currency_balance\<close>: \<^verbatim>\<open>except Exception: return 0.0\<close>.\<close>

definition get_currency_balance ::
  "(string \<Rightarrow> pyfloat option) \<Rightarrow> rpc_reply \<Rightarrow> string \<Rightarrow> pyfloat" where
  "get_currency_balance sf reply currency =
     (case get_currency_balance_body sf reply currency of
        Inl e \<Rightarrow> Fl 0
      | Inr f \<Rightarrow> f)"

text \<open>What \<^verbatim>\<open>float(v)\<close> contributes to a balance: its value, or 0.0 when it raises.\<close>

definition float_or_zero :: "(string \<Rightarrow> pyfloat option) \<Rightarrow> json \<Rightarrow> pyfloat" where
  "float_or_zero sf v = (case py_float sf v of Inl e \<Rightarrow> Fl 0 | Inr f \<Rightarrow> f)"

section \<open>Confirmation polling\<close>

text \<open>
  What the program does that an observer can see: its calls to the node and its sleeps.
  \<open>Refreshed\<close> records the sorted pool a refresh has produced, \<open>Purchased\<close> the
  append to \<^verbatim>\<open>purchased\<close> (offer id, transaction id read off the result) and
  \<open>Confirmed\<close> the return of \<^verbatim>\<open>wait_for_tx_confirmed\<close>; the others are the calls
  \<^verbatim>\<open>getoffers\<close>, \<^verbatim>\<open>takeoffer\<close> (offer id), \<^verbatim>\<open>gettransaction\<close> (transaction id),
  \<^verbatim>\<open>getcurrencybalance\<close>, \<^verbatim>\<open>getcurrencyconverters\<close> (amount of the query),
  \<^verbatim>\<open>sendcurrency\<close> (amount, via), \<^verbatim>\<open>z_getoperationstatus\<close> (operation id), and
  \<^verbatim>\<open>sleep_ms\<close>.
\<close>

datatype event =
    CallGetOffers
  | Refreshed "json list"
  | CallTakeOffer string
  | Purchased string json
  | CallGetTransaction string
  | Confirmed string json
  | Sleep nat
  | CallGetBalance
  | CallGetConverters pyfloat
  | CallSendCurrency pyfloat "string option"
  | CallGetOperationStatus string

text \<open>
  \<^verbatim>\<open>get_tx_confirmations\<close>: \<^verbatim>\<open>tx.get("confirmations", 0)\<close> for a dictionary; a raised
  call is swallowed by \<^verbatim>\<open>except Exception: pass\<close> and, like any other result, gives 0.
\<close>

definition get_tx_confirmations :: "rpc_reply \<Rightarrow> json" where
  "get_tx_confirmations reply =
     (case reply of
        Raise msg \<Rightarrow> JInt 0
      | Result tx \<Rightarrow>
          (case tx of
             JDict d \<Rightarrow> (case map_of d ''confirmations'' of None \<Rightarrow> JInt 0 | Some c \<Rightarrow> c)
           | _ \<Rightarrow> JInt 0))"

definition ge_type_msg :: "json \<Rightarrow> string" where
  "ge_type_msg v =
     quoted ''>='' @ '' not supported between instances of '' @ quoted (py_type_name v)
       @ '' and '' @ quoted ''int''"

text \<open>\<^verbatim>\<open>confs >= n\<close> for an integer \<open>n\<close>: numbers compare, anything else raises \<^verbatim>\<open>TypeError\<close>.\<close>

fun py_ge_int :: "json \<Rightarrow> int \<Rightarrow> error + bool" where
  "py_ge_int (JInt c) n = Inr (n \<le> c)"
| "py_ge_int (JBool b) n = Inr (n \<le> (if b then 1 else 0))"
| "py_ge_int (JFloat (Fl r)) n = Inr (of_int n \<le> r)"
| "py_ge_int (JFloat NaN) n = Inr False"
| "py_ge_int v n = Inl (TypeError (ge_type_msg v))"

text \<open>\<^verbatim>\<open>confs == n\<close> for an integer \<open>n\<close>.\<close>

fun py_eq_int :: "json \<Rightarrow> int \<Rightarrow> bool" where
  "py_eq_int (JInt c) n = (c = n)"
| "py_eq_int (JBool b) n = ((if b then 1 else 0) = n)"
| "py_eq_int (JFloat (Fl r)) n = (r = of_int n)"
| "py_eq_int v n = False"

definition orphaned_msg :: "string \<Rightarrow> string" where
  "orphaned_msg txid = ''Transaction '' @ txid @ '' was orphaned (confirmations=-1)''"

text \<open>
  \<^verbatim>\<open>wait_for_tx_confirmed\<close>: the \<^verbatim>\<open>while True\<close> loop, one reply of the node per round.
  It gives the events, how the call ended and the replies left.
\<close>

fun wait_for_tx_confirmed ::
  "string \<Rightarrow> int \<Rightarrow> rpc_reply list \<Rightarrow> event list \<times> json outcome \<times> rpc_reply list" where
  "wait_for_tx_confirmed txid min_confirmations [] = ([CallGetTransaction txid], Starved, [])"
| "wait_for_tx_confirmed txid min_confirmations (r # rs) =
     (let confs = get_tx_confirmations r in
      case py_ge_int confs min_confirmations of
        Inl e \<Rightarrow> ([CallGetTransaction txid], Raised e, rs)
      | Inr True \<Rightarrow> ([CallGetTransaction txid, Confirmed txid confs], Returned confs, rs)
      | Inr False \<Rightarrow>
          if py_eq_int confs (- 1)
          then ([CallGetTransaction txid], Raised (RuntimeError (orphaned_msg txid)), rs)
          else (case wait_for_tx_confirmed txid min_confirmations rs of
                  (ev, out, rest) \<Rightarrow> (CallGetTransaction txid # Sleep 5000 # ev, out, rest)))"

section \<open>The offer pool\<close>

text \<open>
  \<^verbatim>\<open>extract_offers_list\<close>: a list as it is, the only list-valued field of a dictionary,
  otherwise the empty list.
\<close>

fun is_list :: "json \<Rightarrow> bool" where
  "is_list (JList xs) = True"
| "is_list v = False"

definition extract_offers_list :: "json \<Rightarrow> json list" where
  "extract_offers_list getoffers_result =
     (case getoffers_result of
        JList xs \<Rightarrow> xs
      | JDict d \<Rightarrow>
          (case filter is_list (map snd d) of
             [JList xs] \<Rightarrow> xs
           | _ \<Rightarrow> [])
      | _ \<Rightarrow> [])"

text \<open>
  The sort key of an offer,
  \<^verbatim>\<open>(((o or {}).get("offer") or {}).get("offer") or {}).get("name") or ""\<close>.
  A truthy name that is not a string is not modelled.
\<close>

definition name_key :: "json \<Rightarrow> string outcome" where
  "name_key o_entry =
     (case or_empty_get o_entry ''offer'' of
        Inl e \<Rightarrow> Raised e
      | Inr a \<Rightarrow>
          (case or_empty_get a ''offer'' of
             Inl e \<Rightarrow> Raised e
           | Inr b \<Rightarrow>
               (case or_empty_get b ''name'' of
                  Inl e \<Rightarrow> Raised e
                | Inr n \<Rightarrow>
                    if \<not> truthy n then Returned []
                    else (case n of JStr s \<Rightarrow> Returned s | _ \<Rightarrow> Unmodelled))))"

text \<open>\<^verbatim>\<open>list.sort\<close> computes the key of every element, in order, before it compares any.\<close>

fun offer_keys :: "json list \<Rightarrow> unit outcome" where
  "offer_keys [] = Returned ()"
| "offer_keys (x # xs) =
     (case name_key x of
        Returned k \<Rightarrow> offer_keys xs
      | Raised e \<Rightarrow> Raised e
      | Starved \<Rightarrow> Starved
      | Unmodelled \<Rightarrow> Unmodelled)"

definition key_of :: "json \<Rightarrow> string" where
  "key_of o_entry = (case name_key o_entry of Returned k \<Rightarrow> k | _ \<Rightarrow> [])"

text \<open>
  \<^verbatim>\<open>offers.sort(key=...)\<close>: Python's sort is stable, and so is \<open>sort_key\<close>; strings
  compare character by character.
\<close>

definition sort_offers :: "json list \<Rightarrow> json list outcome" where
  "sort_offers offers =
     (case offer_keys offers of
        Returned u \<Rightarrow> Returned (sort_key key_of offers)
      | Raised e \<Rightarrow> Raised e
      | Starved \<Rightarrow> Starved
      | Unmodelled \<Rightarrow> Unmodelled)"

text \<open>\<^verbatim>\<open>(offer.get("offer") or {}).get("txid")\<close>; \<^verbatim>\<open>offer.get\<close> needs a dictionary.\<close>

definition offer_txid_of :: "json \<Rightarrow> error + json" where
  "offer_txid_of offer =
     (case offer of
        JDict d \<Rightarrow> or_empty_get (dict_get d ''offer'') ''txid''
      | _ \<Rightarrow> Inl (AttributeError (no_get_msg offer)))"

text \<open>
  The search \<^verbatim>\<open>for offer in offers: if txid and txid not in attempted: found_offer = offer; break\<close>.
  It gives the offer found with its id, or \<open>None\<close>.
\<close>

fun find_offer :: "json list \<Rightarrow> string set \<Rightarrow> (json \<times> string) option outcome" where
  "find_offer [] attempted = Returned None"
| "find_offer (offer # offers) attempted =
     (case offer_txid_of offer of
        Inl e \<Rightarrow> Raised e
      | Inr txid \<Rightarrow>
          if \<not> truthy txid then find_offer offers attempted
          else (case txid of
                  JStr s \<Rightarrow>
                    if s \<notin> attempted then Returned (Some (offer, s))
                    else find_offer offers attempted
                | _ \<Rightarrow> Unmodelled))"

text \<open>The refresh at the head of the loop: \<^verbatim>\<open>getoffers\<close>, extraction, sort.\<close>

definition refresh_offers :: "rpc_reply \<Rightarrow> json list outcome" where
  "refresh_offers reply =
     (case reply of
        Raise msg \<Rightarrow> Raised (RuntimeError msg)
      | Result offers_raw \<Rightarrow> sort_offers (extract_offers_list offers_raw))"

text \<open>Offer selection as one function of the pool and the attempted set.\<close>

definition select_next :: "json list \<Rightarrow> string set \<Rightarrow> (json \<times> string) option outcome" where
  "select_next offers attempted =
     (case sort_offers offers of
        Returned sorted_offers \<Rightarrow> find_offer sorted_offers attempted
      | Raised e \<Rightarrow> Raised e
      | Starved \<Rightarrow> Starved
      | Unmodelled \<Rightarrow> Unmodelled)"

section \<open>The purchase loop\<close>

text \<open>\<^verbatim>\<open>dry_run = False\<close> at the head of \<^verbatim>\<open>main\<close>.\<close>

definition dry_run :: bool where
  "dry_run = False"

text \<open>
  \<^verbatim>\<open>str.strip()\<close>: white space is removed at both ends. Below 256 the white space of
  Python is 9 to 13, 28 to 32, 133 and 160.
\<close>

definition is_space :: "char \<Rightarrow> bool" where
  "is_space c =
     (let n = (of_char c :: nat)
      in (9 \<le> n \<and> n \<le> 13) \<or> (28 \<le> n \<and> n \<le> 32) \<or> n = 133 \<or> n = 160)"

definition strip :: "string \<Rightarrow> string" where
  "strip s = rev (dropWhile is_space (rev (dropWhile is_space s)))"

text \<open>\<^verbatim>\<open>sub in s\<close> for strings.\<close>

fun contains :: "string \<Rightarrow> string \<Rightarrow> bool" where
  "contains sub [] = (sub = [])"
| "contains sub (c # cs) = (take (length sub) (c # cs) = sub \<or> contains sub cs)"

text \<open>\<^verbatim>\<open>"rejected" in err_msg.lower()\<close>\<close>

definition is_rejected :: "string \<Rightarrow> bool" where
  "is_rejected err_msg = contains ''rejected'' (lower err_msg)"

text \<open>The dictionary that \<^verbatim>\<open>take_ticket_offer\<close> returns.\<close>

record purchase =
  p_offer_txid :: json
  p_ticket :: json
  p_result :: json

text \<open>The variables of the loop. \<^verbatim>\<open>None\<close> is \<open>JNull\<close>.\<close>

record buy_state =
  purchased :: "purchase list"
  errors :: "(string \<times> string) list"
  attempted :: "string set"
  bought :: int
  last_txid :: json

type_synonym script = "rpc_reply list"

text \<open>
  \<^verbatim>\<open>take_ticket_offer\<close>: the offer is checked, then \<^verbatim>\<open>takeoffer\<close> is called once. The
  event carries the id of the offer found by the loop.
\<close>

definition take_ticket_offer ::
  "string \<Rightarrow> json \<Rightarrow> script \<Rightarrow> event list \<times> purchase outcome \<times> script" where
  "take_ticket_offer found_txid offer_entry rs =
     (case offer_entry of
        JDict d \<Rightarrow>
          (case or_empty_get (dict_get d ''offer'') ''txid'' of
             Inl e \<Rightarrow> ([], Raised e, rs)
           | Inr offer_txid \<Rightarrow>
               (case or_empty_get (dict_get d ''offer'') ''offer'' of
                  Inl e \<Rightarrow> ([], Raised e, rs)
                | Inr inner \<Rightarrow>
                    (case or_empty_get inner ''name'' of
                       Inl e \<Rightarrow> ([], Raised e, rs)
                     | Inr ticket_name \<Rightarrow>
                         let identity_id = dict_get d ''identityid'' in
                         if \<not> truthy offer_txid \<or> \<not> truthy ticket_name
                         then ([], Raised (RuntimeError ''Offer missing txid or ticket name''), rs)
                         else if \<not> truthy identity_id
                         then ([], Raised (RuntimeError ''Offer missing identityid''), rs)
                         else (case rs of
                                 [] \<Rightarrow> ([CallTakeOffer found_txid], Starved, [])
                               | Raise msg # rest \<Rightarrow>
                                   ([CallTakeOffer found_txid], Raised (RuntimeError msg), rest)
                               | Result res # rest \<Rightarrow>
                                   ([CallTakeOffer found_txid],
                                    Returned \<lparr>p_offer_txid = offer_txid, p_ticket = ticket_name,
                                              p_result = res\<rparr>,
                                    rest)))))
      | _ \<Rightarrow> ([], Raised (AttributeError (no_get_msg offer_entry)), rs))"

text \<open>
  The transaction id read off the result of \<^verbatim>\<open>takeoffer\<close>: the first 64 characters of a
  string of at least 64, the field \<^verbatim>\<open>txid\<close> of a dictionary, otherwise \<^verbatim>\<open>None\<close>.
\<close>

definition extract_tx_id :: "json \<Rightarrow> json" where
  "extract_tx_id result =
     (case result of
        JStr s \<Rightarrow> if 64 \<le> length s then JStr (take 64 (strip s)) else JNull
      | JDict d \<Rightarrow> (case map_of d ''txid'' of Some v \<Rightarrow> v | None \<Rightarrow> JNull)
      | _ \<Rightarrow> JNull)"

text \<open>
  A call of \<^verbatim>\<open>wait_for_tx_confirmed(rpc, tx, min_confirmations=1)\<close> from the loop, on a
  transaction id that may be any truthy value; only strings are modelled.
\<close>

definition await_tx :: "json \<Rightarrow> script \<Rightarrow> event list \<times> unit outcome \<times> script" where
  "await_tx tx rs =
     (case tx of
        JStr t \<Rightarrow>
          (case wait_for_tx_confirmed t 1 rs of
             (ev, Returned c, rest) \<Rightarrow> (ev, Returned (), rest)
           | (ev, Raised e, rest) \<Rightarrow> (ev, Raised e, rest)
           | (ev, Starved, rest) \<Rightarrow> (ev, Starved, rest)
           | (ev, Unmodelled, rest) \<Rightarrow> (ev, Unmodelled, rest))
      | _ \<Rightarrow> ([], Unmodelled, rs))"

text \<open>The \<^verbatim>\<open>try\<close> block of the loop; \<open>Raised\<close> is an exception on its way to the handler.\<close>

definition try_block ::
  "int \<Rightarrow> buy_state \<Rightarrow> string \<Rightarrow> json \<Rightarrow> script \<Rightarrow> event list \<times> unit outcome \<times> buy_state \<times> script" where
  "try_block qty st found_txid found_offer rs =
     (case take_ticket_offer found_txid found_offer rs of
        (ev, Raised e, rest) \<Rightarrow> (ev, Raised e, st, rest)
      | (ev, Starved, rest) \<Rightarrow> (ev, Starved, st, rest)
      | (ev, Unmodelled, rest) \<Rightarrow> (ev, Unmodelled, st, rest)
      | (ev, Returned r, rest) \<Rightarrow>
          let tx_id = extract_tx_id (p_result r);
              st1 = st\<lparr>purchased := purchased st @ [r], bought := bought st + 1\<rparr>;
              ev1 = ev @ [Purchased found_txid tx_id]
          in if truthy tx_id \<and> bought st1 < qty \<and> \<not> dry_run
             then (case await_tx tx_id rest of
                     (ev2, out, rest2) \<Rightarrow> (ev1 @ ev2, out, st1, rest2))
             else if truthy tx_id
             then (ev1, Returned (), st1\<lparr>last_txid := tx_id\<rparr>, rest)
             else (ev1, Returned (), st1, rest))"

text \<open>
  The \<^verbatim>\<open>except Exception as e\<close> handler, on the message \<^verbatim>\<open>str(e)\<close>. An exception raised in
  it leaves the loop.
\<close>

definition handler ::
  "buy_state \<Rightarrow> string \<Rightarrow> string \<Rightarrow> script \<Rightarrow> event list \<times> unit outcome \<times> buy_state \<times> script" where
  "handler st offer_txid err_msg rs =
     (if is_rejected err_msg
      then (if truthy (last_txid st)
            then (case await_tx (last_txid st) rs of
                    (ev, Returned u, rest) \<Rightarrow>
                      (ev, Returned (), st\<lparr>attempted := attempted st - {offer_txid}\<rparr>, rest)
                  | (ev, out, rest) \<Rightarrow> (ev, out, st, rest))
            else ([Sleep 5000], Returned (),
                  st\<lparr>attempted := attempted st - {offer_txid}\<rparr>, rs))
      else ([], Returned (), st\<lparr>errors := errors st @ [(offer_txid, err_msg)]\<rparr>, rs))"

text \<open>
  \<^verbatim>\<open>except Exception as e: err_msg = str(e)\<close>. \<^verbatim>\<open>SystemExit\<close> is no \<^verbatim>\<open>Exception\<close> and
  passes through; \<^verbatim>\<open>ValueError\<close> and \<^verbatim>\<open>OverflowError\<close> carry no message here and
  are not raised in the \<^verbatim>\<open>try\<close> block (it converts nothing to a float).
\<close>

definition handle_error ::
  "buy_state \<Rightarrow> string \<Rightarrow> error \<Rightarrow> script \<Rightarrow> event list \<times> unit outcome \<times> buy_state \<times> script" where
  "handle_error st offer_txid e rs =
     (case e of
        RuntimeError msg \<Rightarrow> handler st offer_txid msg rs
      | TypeError msg \<Rightarrow> handler st offer_txid msg rs
      | AttributeError msg \<Rightarrow> handler st offer_txid msg rs
      | ValueError \<Rightarrow> ([], Unmodelled, st, rs)
      | OverflowError \<Rightarrow> ([], Unmodelled, st, rs)
      | SystemExit msg \<Rightarrow> ([], Raised (SystemExit msg), st, rs))"

datatype flow = Continue | Break

text \<open>One round of \<^verbatim>\<open>while bought < qty\<close>, entered with the condition true.\<close>

definition iteration ::
  "int \<Rightarrow> buy_state \<Rightarrow> script \<Rightarrow> event list \<times> flow outcome \<times> buy_state \<times> script" where
  "iteration qty st rs =
     (case rs of
        [] \<Rightarrow> ([CallGetOffers], Starved, st, [])
      | reply # rest \<Rightarrow>
          (case refresh_offers reply of
             Raised e \<Rightarrow> ([CallGetOffers], Raised e, st, rest)
           | Starved \<Rightarrow> ([CallGetOffers], Starved, st, rest)
           | Unmodelled \<Rightarrow> ([CallGetOffers], Unmodelled, st, rest)
           | Returned offers \<Rightarrow>
               (case find_offer offers (attempted st) of
                  Raised e \<Rightarrow> ([CallGetOffers, Refreshed offers], Raised e, st, rest)
                | Starved \<Rightarrow> ([CallGetOffers, Refreshed offers], Starved, st, rest)
                | Unmodelled \<Rightarrow> ([CallGetOffers, Refreshed offers], Unmodelled, st, rest)
                | Returned None \<Rightarrow>
                    ([CallGetOffers, Refreshed offers], Returned Break, st, rest)
                | Returned (Some (found_offer, offer_txid)) \<Rightarrow>
                    let st1 = st\<lparr>attempted := insert offer_txid (attempted st)\<rparr> in
                    (case try_block qty st1 offer_txid found_offer rest of
                       (ev, Returned u, st2, rest2) \<Rightarrow>
                         (CallGetOffers # Refreshed offers # ev, Returned Continue, st2, rest2)
                     | (ev, Starved, st2, rest2) \<Rightarrow>
                         (CallGetOffers # Refreshed offers # ev, Starved, st2, rest2)
                     | (ev, Unmodelled, st2, rest2) \<Rightarrow>
                         (CallGetOffers # Refreshed offers # ev, Unmodelled, st2, rest2)
                     | (ev, Raised e, st2, rest2) \<Rightarrow>
                         (case handle_error st2 offer_txid e rest2 of
                            (ev', Returned u, st3, rest3) \<Rightarrow>
                              (CallGetOffers # Refreshed offers # ev @ ev', Returned Continue, st3, rest3)
                          | (ev', Raised e', st3, rest3) \<Rightarrow>
                              (CallGetOffers # Refreshed offers # ev @ ev', Raised e', st3, rest3)
                          | (ev', Starved, st3, rest3) \<Rightarrow>
                              (CallGetOffers # Refreshed offers # ev @ ev', Starved, st3, rest3)
                          | (ev', Unmodelled, st3, rest3) \<Rightarrow>
                              (CallGetOffers # Refreshed offers # ev @ ev', Unmodelled, st3, rest3))))))"

text \<open>Every call consumes replies from the front of the script.\<close>

lemma wait_for_tx_confirmed_rest:
  "wait_for_tx_confirmed t m rs = (ev, out, rest) \<Longrightarrow> length rest \<le> length rs"
proof (induction rs arbitrary: ev out rest)
  case Nil
  then show ?case by simp
next
  case (Cons r rs)
  then show ?case
    by (fastforce simp: Let_def split: sum.splits bool.splits if_splits prod.splits)
qed

lemma await_tx_rest:
  "await_tx tx rs = (ev, out, rest) \<Longrightarrow> length rest \<le> length rs"
  by (auto simp: await_tx_def split: json.splits prod.splits outcome.splits
      dest: wait_for_tx_confirmed_rest)

lemma take_ticket_offer_rest:
  "take_ticket_offer x offer rs = (ev, out, rest) \<Longrightarrow> length rest \<le> length rs"
  by (auto simp: take_ticket_offer_def Let_def
      split: json.splits sum.splits if_splits list.splits rpc_reply.splits)

lemma try_block_rest:
  "try_block qty st x offer rs = (ev, out, st', rest) \<Longrightarrow> length rest \<le> length rs"
  by (auto simp: try_block_def Let_def split: prod.splits outcome.splits if_splits
      dest!: take_ticket_offer_rest await_tx_rest)

lemma handler_rest:
  "handler st x msg rs = (ev, out, st', rest) \<Longrightarrow> length rest \<le> length rs"
  by (auto simp: handler_def split: prod.splits outcome.splits if_splits dest!: await_tx_rest)

lemma handle_error_rest:
  "handle_error st x e rs = (ev, out, st', rest) \<Longrightarrow> length rest \<le> length rs"
  by (auto simp: handle_error_def split: error.splits dest!: handler_rest)

lemma iteration_rest:
  "iteration qty st rs = (ev, Returned fl, st', rest) \<Longrightarrow> length rest < length rs"
  by (auto simp: iteration_def Let_def
      split: list.splits outcome.splits option.splits prod.splits
      dest!: try_block_rest handle_error_rest)

text \<open>The loop \<^verbatim>\<open>while bought < qty\<close>.\<close>

function main_loop ::
  "int \<Rightarrow> buy_state \<Rightarrow> script \<Rightarrow> event list \<times> unit outcome \<times> buy_state \<times> script" where
  "main_loop qty st rs =
     (if bought st < qty
      then (case iteration qty st rs of
              (ev, Returned Continue, st1, rest) \<Rightarrow>
                (case main_loop qty st1 rest of
                   (ev', out, st2, rest2) \<Rightarrow> (ev @ ev', out, st2, rest2))
            | (ev, Returned Break, st1, rest) \<Rightarrow> (ev, Returned (), st1, rest)
            | (ev, Raised e, st1, rest) \<Rightarrow> (ev, Raised e, st1, rest)
            | (ev, Starved, st1, rest) \<Rightarrow> (ev, Starved, st1, rest)
            | (ev, Unmodelled, st1, rest) \<Rightarrow> (ev, Unmodelled, st1, rest))
      else ([], Returned (), st, rs))"
  by pat_completeness auto
termination
  by (relation "measure (\<lambda>(qty, st, rs). length rs)") (auto dest: iteration_rest [OF sym])

declare main_loop.simps [simp del]

text \<open>
  The purchase section of \<^verbatim>\<open>main\<close>: the loop from its initial state, then
  \<^verbatim>\<open>if last_txid and not dry_run: wait_for_tx_confirmed(rpc, last_txid, min_confirmations=1)\<close>.
\<close>

definition initial_state :: buy_state where
  "initial_state =
     \<lparr>purchased = [], errors = [], attempted = {}, bought = 0, last_txid = JNull\<rparr>"

definition buy_tickets ::
  "int \<Rightarrow> script \<Rightarrow> event list \<times> unit outcome \<times> buy_state \<times> script" where
  "buy_tickets qty rs =
     (case main_loop qty initial_state rs of
        (ev, Returned u, st, rest) \<Rightarrow>
          if truthy (last_txid st) \<and> \<not> dry_run
          then (case await_tx (last_txid st) rest of
                  (ev', out, rest') \<Rightarrow> (ev @ ev', out, st, rest'))
          else (ev, Returned (), st, rest)
      | (ev, out, st, rest) \<Rightarrow> (ev, out, st, rest))"

section \<open>Float arithmetic\<close>

text \<open>Arithmetic and comparison of floats; a comparison with NaN is false.\<close>

fun fsub :: "pyfloat \<Rightarrow> pyfloat \<Rightarrow> pyfloat" where
  "fsub (Fl a) (Fl b) = Fl (a - b)"
| "fsub a b = NaN"

fun fadd :: "pyfloat \<Rightarrow> pyfloat \<Rightarrow> pyfloat" where
  "fadd (Fl a) (Fl b) = Fl (a + b)"
| "fadd a b = NaN"

fun fmul :: "pyfloat \<Rightarrow> pyfloat \<Rightarrow> pyfloat" where
  "fmul (Fl a) (Fl b) = Fl (a * b)"
| "fmul a b = NaN"

fun flt :: "pyfloat \<Rightarrow> pyfloat \<Rightarrow> bool" where
  "flt (Fl a) (Fl b) = (a < b)"
| "flt a b = False"

fun fle :: "pyfloat \<Rightarrow> pyfloat \<Rightarrow> bool" where
  "fle (Fl a) (Fl b) = (a \<le> b)"
| "fle a b = False"

text \<open>\<^verbatim>\<open>max(a, b)\<close> keeps \<open>a\<close> unless \<^verbatim>\<open>b > a\<close>.\<close>

definition py_max :: "pyfloat \<Rightarrow> pyfloat \<Rightarrow> pyfloat" where
  "py_max a b = (if flt a b then b else a)"

text \<open>\<^verbatim>\<open>round(x, n)\<close>: to the nearest multiple of \<open>10\<^sup>-\<^sup>n\<close>, a tie to the even one.\<close>

fun py_round :: "pyfloat \<Rightarrow> nat \<Rightarrow> pyfloat" where
  "py_round (Fl r) n = Fl (of_int (round_half_even (r * 10 ^ n)) / 10 ^ n)"
| "py_round NaN n = NaN"

section \<open>The converter query\<close>

text \<open>\<^verbatim>\<open>isinstance(v, (int, float, str))\<close>; a Python \<^verbatim>\<open>bool\<close> is an \<^verbatim>\<open>int\<close>.\<close>

fun is_num_or_str :: "json \<Rightarrow> bool" where
  "is_num_or_str (JBool b) = True"
| "is_num_or_str (JInt n) = True"
| "is_num_or_str (JFloat f) = True"
| "is_num_or_str (JStr s) = True"
| "is_num_or_str v = False"

text \<open>\<^verbatim>\<open>[float(v) for v in ... if isinstance(v, (int, float, str))]\<close>: the first failing conversion raises.\<close>

fun float_vals :: "(string \<Rightarrow> pyfloat option) \<Rightarrow> json list \<Rightarrow> error + pyfloat list" where
  "float_vals sf [] = Inr []"
| "float_vals sf (v # vs) =
     (if is_num_or_str v
      then (case py_float sf v of
              Inl e \<Rightarrow> Inl e
            | Inr f \<Rightarrow> (case float_vals sf vs of Inl e \<Rightarrow> Inl e | Inr fs \<Rightarrow> Inr (f # fs)))
      else float_vals sf vs)"

text \<open>\<^verbatim>\<open>v == v and v > 0\<close>\<close>

fun positive :: "pyfloat \<Rightarrow> bool" where
  "positive (Fl r) = (0 < r)"
| "positive NaN = False"

text \<open>
  The amount a dictionary of source amounts quotes: the first positive value of
  \<^verbatim>\<open>vals\<close>, or \<open>None\<close> when \<^verbatim>\<open>vals\<close> is empty.
\<close>

definition quoted_amount ::
  "(string \<Rightarrow> pyfloat option) \<Rightarrow> (string \<times> json) list \<Rightarrow> error + pyfloat option" where
  "quoted_amount sf sourceamounts =
     (case float_vals sf (map snd sourceamounts) of
        Inl e \<Rightarrow> Inl e
      | Inr vals \<Rightarrow>
          (case filter positive vals of
             [] \<Rightarrow> Inr None
           | required # others \<Rightarrow> Inr (Some required)))"

text \<open>
  One round of \<^verbatim>\<open>for c in res\<close> up to \<^verbatim>\<open>required = vals[0]\<close>: the name and the
  required amount of a usable candidate, \<open>None\<close> where the loop says \<^verbatim>\<open>continue\<close>.
\<close>

definition candidate ::
  "(string \<Rightarrow> pyfloat option) \<Rightarrow> json \<Rightarrow> error + (pyfloat \<times> json) option" where
  "candidate sf c =
     (case or_empty_get c ''fullyqualifiedname'' of
        Inl e \<Rightarrow> Inl e
      | Inr via \<Rightarrow>
          (case or_empty_get c ''sourceamounts'' of
             Inl e \<Rightarrow> Inl e
           | Inr sourceamounts \<Rightarrow>
               (case sourceamounts of
                  JDict d \<Rightarrow>
                    if \<not> truthy via \<or> d = [] then Inr None
                    else (case quoted_amount sf d of
                            Inl e \<Rightarrow> Inl e
                          | Inr None \<Rightarrow> Inr None
                          | Inr (Some required) \<Rightarrow> Inr (Some (required, via)))
                | _ \<Rightarrow> Inr None)))"

text \<open>The loop over the candidates, with \<^verbatim>\<open>best_required\<close> and \<^verbatim>\<open>best_via\<close> as one optional pair.\<close>

fun best_loop ::
  "(string \<Rightarrow> pyfloat option) \<Rightarrow> json list \<Rightarrow> (pyfloat \<times> json) option
     \<Rightarrow> error + (pyfloat \<times> json) option" where
  "best_loop sf [] best = Inr best"
| "best_loop sf (c # cs) best =
     (case candidate sf c of
        Inl e \<Rightarrow> Inl e
      | Inr None \<Rightarrow> best_loop sf cs best
      | Inr (Some (required, via)) \<Rightarrow>
          (case best of
             None \<Rightarrow> best_loop sf cs (Some (required, via))
           | Some (best_required, best_via) \<Rightarrow>
               if flt required best_required then best_loop sf cs (Some (required, via))
               else best_loop sf cs best))"

definition no_converters_msg :: "string \<Rightarrow> string \<Rightarrow> string" where
  "no_converters_msg from_currency to_currency =
     ''No converters found for '' @ from_currency @ '' -> '' @ to_currency"

definition no_route_msg :: "string \<Rightarrow> string \<Rightarrow> string" where
  "no_route_msg from_currency to_currency =
     ''No usable converter route found for '' @ from_currency @ '' -> '' @ to_currency"

text \<open>\<^verbatim>\<open>get_best_exact_out_converter\<close>, on the result of \<^verbatim>\<open>getcurrencyconverters\<close>.\<close>

definition best_of_result ::
  "(string \<Rightarrow> pyfloat option) \<Rightarrow> string \<Rightarrow> string \<Rightarrow> json \<Rightarrow> (pyfloat \<times> json) outcome" where
  "best_of_result sf from_currency to_currency res =
     (case res of
        JList cs \<Rightarrow>
          if cs = [] then Raised (RuntimeError (no_converters_msg from_currency to_currency))
          else (case best_loop sf cs None of
                  Inl e \<Rightarrow> Raised e
                | Inr None \<Rightarrow> Raised (RuntimeError (no_route_msg from_currency to_currency))
                | Inr (Some (best_required, best_via)) \<Rightarrow>
                    Returned (py_round best_required 8, best_via))
      | _ \<Rightarrow> Raised (RuntimeError (no_converters_msg from_currency to_currency)))"

definition get_best_exact_out_converter ::
  "(string \<Rightarrow> pyfloat option) \<Rightarrow> string \<Rightarrow> string \<Rightarrow> pyfloat \<Rightarrow> script
     \<Rightarrow> event list \<times> (pyfloat \<times> json) outcome \<times> script" where
  "get_best_exact_out_converter sf from_currency to_currency to_amount rs =
     (let amount = py_round to_amount 8 in
      case rs of
        [] \<Rightarrow> ([CallGetConverters amount], Starved, [])
      | Raise msg # rest \<Rightarrow> ([CallGetConverters amount], Raised (RuntimeError msg), rest)
      | Result res # rest \<Rightarrow>
          ([CallGetConverters amount], best_of_result sf from_currency to_currency res, rest))"

section \<open>Liquidity\<close>

definition no_lower_msg :: "json \<Rightarrow> string" where
  "no_lower_msg x = quoted (py_type_name x) @ '' object has no attribute '' @ quoted ''lower''"

text \<open>
  \<^verbatim>\<open>sendcurrency_convert\<close>: the via tag is attached when it differs from the destination
  ignoring case. The result is a string as it is, or the field \<^verbatim>\<open>txid\<close> of a
  dictionary; \<^verbatim>\<open>str\<close> of any other value is not modelled.
\<close>

definition sendcurrency_convert ::
  "string \<Rightarrow> pyfloat \<Rightarrow> json \<Rightarrow> script \<Rightarrow> event list \<times> string outcome \<times> script" where
  "sendcurrency_convert to_currency amount_in via rs =
     (let amount = py_round amount_in 8 in
      case (if \<not> truthy via then Inr None
            else (case via of
                    JStr v \<Rightarrow> Inr (if lower v \<noteq> lower to_currency then Some v else None)
                  | _ \<Rightarrow> Inl (AttributeError (no_lower_msg via)))) of
        Inl e \<Rightarrow> ([], Raised e, rs)
      | Inr via_tag \<Rightarrow>
          (case rs of
             [] \<Rightarrow> ([CallSendCurrency amount via_tag], Starved, [])
           | Raise msg # rest \<Rightarrow>
               ([CallSendCurrency amount via_tag], Raised (RuntimeError msg), rest)
           | Result res # rest \<Rightarrow>
               ([CallSendCurrency amount via_tag],
                (case res of
                   JStr r \<Rightarrow> Returned r
                 | JDict d \<Rightarrow>
                     (case map_of d ''txid'' of
                        Some (JStr t) \<Rightarrow> Returned t
                      | _ \<Rightarrow> Unmodelled)
                 | _ \<Rightarrow> Unmodelled),
                rest)))"

text \<open>One look at the status list in \<^verbatim>\<open>wait_for_opid_success\<close>: \<open>None\<close> is "poll again".\<close>

definition opid_status :: "json \<Rightarrow> json outcome option" where
  "opid_status status =
     (case status of
        JList (s0 # others) \<Rightarrow>
          (case s0 of
             JDict d \<Rightarrow>
               if dict_get d ''status'' = JStr ''success''
               then (case or_empty_get (dict_get d ''result'') ''txid'' of
                       Inl e \<Rightarrow> Some (Raised e)
                     | Inr txid \<Rightarrow> Some (Returned (if truthy txid then txid else JStr [])))
               else if dict_get d ''status'' = JStr ''failed''
               then (case or_empty_get (dict_get d ''error'') ''message'' of
                       Inl e \<Rightarrow> Some (Raised e)
                     | Inr err \<Rightarrow>
                         if \<not> truthy err then Some (Raised (RuntimeError ''Operation failed''))
                         else (case err of
                                 JStr m \<Rightarrow> Some (Raised (RuntimeError m))
                               | _ \<Rightarrow> Some Unmodelled))
               else None
           | _ \<Rightarrow> Some (Raised (AttributeError (no_get_msg s0))))
      | _ \<Rightarrow> None)"

text \<open>\<^verbatim>\<open>wait_for_opid_success\<close>: polls every 3 seconds.\<close>

fun wait_for_opid_success :: "string \<Rightarrow> script \<Rightarrow> event list \<times> json outcome \<times> script" where
  "wait_for_opid_success opid [] = ([CallGetOperationStatus opid], Starved, [])"
| "wait_for_opid_success opid (Raise msg # rs) =
     ([CallGetOperationStatus opid], Raised (RuntimeError msg), rs)"
| "wait_for_opid_success opid (Result status # rs) =
     (case opid_status status of
        Some out \<Rightarrow> ([CallGetOperationStatus opid], out, rs)
      | None \<Rightarrow>
          (case wait_for_opid_success opid rs of
             (ev, out, rest) \<Rightarrow> (CallGetOperationStatus opid # Sleep 3000 # ev, out, rest)))"

text \<open>\<^verbatim>\<open>wait_for_balance\<close>: polls every 5 seconds until \<^verbatim>\<open>bal >= min_balance\<close>.\<close>

fun wait_for_balance ::
  "(string \<Rightarrow> pyfloat option) \<Rightarrow> string \<Rightarrow> pyfloat \<Rightarrow> script
     \<Rightarrow> event list \<times> pyfloat outcome \<times> script" where
  "wait_for_balance sf currency min_balance [] = ([CallGetBalance], Starved, [])"
| "wait_for_balance sf currency min_balance (r # rs) =
     (let bal = get_currency_balance sf r currency in
      if fle min_balance bal then ([CallGetBalance], Returned bal, rs)
      else (case wait_for_balance sf currency min_balance rs of
              (ev, out, rest) \<Rightarrow> (CallGetBalance # Sleep 5000 # ev, out, rest)))"

definition buffer_percent :: pyfloat where
  "buffer_percent = Fl (1 / 100)"

definition ticket_price :: pyfloat where
  "ticket_price = Fl 1"

text \<open>
  \<^verbatim>\<open>needed = qty * ticket_price\<close>: the integer is converted to a float, which raises
  \<^verbatim>\<open>OverflowError\<close> when it is too large.
\<close>

definition needed_of :: "int \<Rightarrow> error + pyfloat" where
  "needed_of qty =
     (case int_to_float qty of
        Inl e \<Rightarrow> Inl e
      | Inr q \<Rightarrow> Inr (fmul q ticket_price))"

text \<open>\<^verbatim>\<open>deficit = max(0.0, needed - vlotto_balance)\<close>\<close>

definition deficit_of :: "pyfloat \<Rightarrow> pyfloat \<Rightarrow> pyfloat" where
  "deficit_of needed vlotto_balance = py_max (Fl 0) (fsub needed vlotto_balance)"

text \<open>
  \<^verbatim>\<open>buf = buffer_percent; if buf < 0: buf = 0.0;
  deficit_with_buffer = deficit * (1.0 + buf) if deficit > 0 else 0.0\<close>
\<close>

definition deficit_with_buffer_of :: "pyfloat \<Rightarrow> pyfloat" where
  "deficit_with_buffer_of deficit =
     (let buf = (if flt buffer_percent (Fl 0) then Fl 0 else buffer_percent)
      in if flt (Fl 0) deficit then fmul deficit (fadd (Fl 1) buf) else Fl 0)"

text \<open>
  The swap of \<^verbatim>\<open>main\<close>, entered when \<^verbatim>\<open>deficit_with_buffer > 0\<close>: the conversion is
  sent, an operation id is followed to its transaction and the transaction to its first
  confirmation, then the balance is awaited.
\<close>

definition execute_swap ::
  "(string \<Rightarrow> pyfloat option) \<Rightarrow> pyfloat \<Rightarrow> pyfloat \<Rightarrow> json \<Rightarrow> script
     \<Rightarrow> event list \<times> pyfloat outcome \<times> script" where
  "execute_swap sf needed required_vrsc via rs =
     (case sendcurrency_convert ''vlotto'' required_vrsc via rs of
        (ev, Raised e, rest) \<Rightarrow> (ev, Raised e, rest)
      | (ev, Starved, rest) \<Rightarrow> (ev, Starved, rest)
      | (ev, Unmodelled, rest) \<Rightarrow> (ev, Unmodelled, rest)
      | (ev, Returned swap_opid, rest) \<Rightarrow>
          (case (if take 5 swap_opid = ''opid-''
                 then (case wait_for_opid_success swap_opid rest of
                         (ev1, Returned swap_txid, rest1) \<Rightarrow>
                           (case await_tx swap_txid rest1 of
                              (ev2, out, rest2) \<Rightarrow> (ev1 @ ev2, out, rest2))
                       | (ev1, Raised e, rest1) \<Rightarrow> (ev1, Raised e, rest1)
                       | (ev1, Starved, rest1) \<Rightarrow> (ev1, Starved, rest1)
                       | (ev1, Unmodelled, rest1) \<Rightarrow> (ev1, Unmodelled, rest1))
                 else ([], Returned (), rest)) of
             (ev3, Returned u, rest3) \<Rightarrow>
               (case wait_for_balance sf ''vlotto'' needed rest3 of
                  (ev4, out, rest4) \<Rightarrow> (ev @ ev3 @ ev4, out, rest4))
           | (ev3, Raised e, rest3) \<Rightarrow> (ev @ ev3, Raised e, rest3)
           | (ev3, Starved, rest3) \<Rightarrow> (ev @ ev3, Starved, rest3)
           | (ev3, Unmodelled, rest3) \<Rightarrow> (ev @ ev3, Unmodelled, rest3)))"

text \<open>
  \<^verbatim>\<open>main\<close> from \<^verbatim>\<open>ticket_price = 1.0\<close> to the end of the swap: the balance is read, the
  deficit computed, a route asked for when \<^verbatim>\<open>deficit_with_buffer > 0\<close>, the user's
  answer \<open>confirm\<close> checked, and the swap executed under the same condition. It gives the
  balance of \<^verbatim>\<open>vlotto\<close> the purchases start with.
\<close>

definition ensure_liquidity ::
  "(string \<Rightarrow> pyfloat option) \<Rightarrow> int \<Rightarrow> string \<Rightarrow> script
     \<Rightarrow> event list \<times> pyfloat outcome \<times> script" where
  "ensure_liquidity sf qty confirm rs =
     (case needed_of qty of
        Inl e \<Rightarrow> ([], Raised e, rs)
      | Inr needed \<Rightarrow>
          (case rs of
             [] \<Rightarrow> ([CallGetBalance], Starved, [])
           | reply # rest \<Rightarrow>
               let vlotto_balance = get_currency_balance sf reply ''vlotto'';
                   deficit = deficit_of needed vlotto_balance;
                   deficit_with_buffer = deficit_with_buffer_of deficit
               in (case (if flt (Fl 0) deficit_with_buffer
                         then get_best_exact_out_converter sf ''VRSC'' ''vlotto''
                                deficit_with_buffer rest
                         else ([], Returned (Fl 0, JNull), rest)) of
                     (ev, Raised e, rest1) \<Rightarrow> (CallGetBalance # ev, Raised e, rest1)
                   | (ev, Starved, rest1) \<Rightarrow> (CallGetBalance # ev, Starved, rest1)
                   | (ev, Unmodelled, rest1) \<Rightarrow> (CallGetBalance # ev, Unmodelled, rest1)
                   | (ev, Returned (required_vrsc, via), rest1) \<Rightarrow>
                       if confirm \<noteq> ''y''
                       then (CallGetBalance # ev, Raised (SystemExit ''Cancelled by user.''),
                             rest1)
                       else if flt (Fl 0) deficit_with_buffer
                       then (case execute_swap sf needed required_vrsc via rest1 of
                               (ev', out, rest2) \<Rightarrow> (CallGetBalance # ev @ ev', out, rest2))
                       else (CallGetBalance # ev, Returned vlotto_balance, rest1))))"

text \<open>The calls that convert currency.\<close>

fun is_conversion_call :: "event \<Rightarrow> bool" where
  "is_conversion_call (CallGetConverters a) = True"
| "is_conversion_call (CallSendCurrency a v) = True"
| "is_conversion_call e = False"

section \<open>The buffered deficit in binary64\<close>

text \<open>
  Python's floats are IEEE 754 doubles. To check that reading them as real numbers does
  not change the amount of the converter query, the same computation is written here
  with every operation rounded to the nearest double by \<open>to_double\<close>.
\<close>

definition dbl_add :: "real \<Rightarrow> real \<Rightarrow> real option" where
  "dbl_add a b = to_double (a + b)"

definition dbl_sub :: "real \<Rightarrow> real \<Rightarrow> real option" where
  "dbl_sub a b = to_double (a - b)"

definition dbl_mul :: "real \<Rightarrow> real \<Rightarrow> real option" where
  "dbl_mul a b = to_double (a * b)"

text \<open>
  \<^verbatim>\<open>round(x, n)\<close> on a double: the exact value of \<open>x\<close> is rounded to \<open>n\<close> decimal places,
  a tie to even, and the decimal is read back as a double.
\<close>

definition dbl_round :: "real \<Rightarrow> nat \<Rightarrow> real option" where
  "dbl_round x n = to_double (of_int (round_half_even (x * 10 ^ n)) / 10 ^ n)"

text \<open>
  The amount of the converter query in binary64, from \<^verbatim>\<open>needed\<close> and the balance:
  \<^verbatim>\<open>round(max(0.0, needed - balance) * (1.0 + 0.01), 8)\<close>, or \<open>None\<close> when no query is
  made (or a value leaves the normal doubles).
\<close>

definition double_query_amount :: "real \<Rightarrow> real \<Rightarrow> real option" where
  "double_query_amount needed bal =
     (case dbl_sub needed bal of
        None \<Rightarrow> None
      | Some diff \<Rightarrow>
          let deficit = (if 0 < diff then diff else 0) in
          if 0 < deficit
          then (case to_double (1 / 100) of
                  None \<Rightarrow> None
                | Some buf \<Rightarrow>
                    (case dbl_add 1 buf of
                       None \<Rightarrow> None
                     | Some factor \<Rightarrow>
                         (case dbl_mul deficit factor of
                            None \<Rightarrow> None
                          | Some deficit_with_buffer \<Rightarrow>
                              if 0 < deficit_with_buffer then dbl_round deficit_with_buffer 8
                              else None)))
          else None)"

section \<open>Vocabulary of the properties\<close>

text \<open>
  A reply that leaves \<^verbatim>\<open>wait_for_tx_confirmed\<close> waiting: the count it carries is below
  the threshold and is not \<open>-1\<close>.
\<close>

definition pending :: "int \<Rightarrow> rpc_reply \<Rightarrow> bool" where
  "pending min_confirmations r =
     (py_ge_int (get_tx_confirmations r) min_confirmations = Inr False
      \<and> \<not> py_eq_int (get_tx_confirmations r) (- 1))"

text \<open>The events of \<open>n\<close> rounds of polling that found the transaction pending.\<close>

fun polls :: "string \<Rightarrow> nat \<Rightarrow> event list" where
  "polls txid 0 = []"
| "polls txid (Suc n) = CallGetTransaction txid # Sleep 5000 # polls txid n"

text \<open>
  An offer the search can take: its transaction id is a non-empty string that is not in
  the attempted set.
\<close>

definition eligible :: "string set \<Rightarrow> json \<Rightarrow> bool" where
  "eligible att offer =
     (case offer_txid_of offer of
        Inr (JStr s) \<Rightarrow> s \<noteq> [] \<and> s \<notin> att
      | _ \<Rightarrow> False)"

text \<open>An offer as the node lists it, for the examples.\<close>

definition mk_offer :: "string \<Rightarrow> string \<Rightarrow> json" where
  "mk_offer txid name =
     JDict [(''identityid'', JStr (''i'' @ name)),
            (''offer'', JDict [(''txid'', JStr txid), (''offer'', JDict [(''name'', JStr name)])])]"

text \<open>
  The usable candidates of a converter list, in discovery order, each with the amount it
  quotes and its name.
\<close>

fun quotes :: "(string \<Rightarrow> pyfloat option) \<Rightarrow> json list \<Rightarrow> (real \<times> json) list" where
  "quotes sf [] = []"
| "quotes sf (c # cs) =
     (case candidate sf c of
        Inr (Some (Fl r, via)) \<Rightarrow> (r, via) # quotes sf cs
      | _ \<Rightarrow> quotes sf cs)"

text \<open>A candidate that the loop can examine without an exception.\<close>

definition examinable :: "(string \<Rightarrow> pyfloat option) \<Rightarrow> json \<Rightarrow> bool" where
  "examinable sf c = (case candidate sf c of Inl e \<Rightarrow> False | Inr q \<Rightarrow> True)"

text \<open>A converter as the node lists it, for the examples, and one without a name.\<close>

definition mk_converter :: "string \<Rightarrow> json \<Rightarrow> json" where
  "mk_converter name amount =
     JDict [(''fullyqualifiedname'', JStr name), (''sourceamounts'', JDict [(''VRSC'', amount)])]"

definition nameless_converter :: "json \<Rightarrow> json" where
  "nameless_converter amount = JDict [(''sourceamounts'', JDict [(''VRSC'', amount)])]"

text \<open>The calls and sleeps of a trace, without the record of the refreshed pools.\<close>

fun is_refreshed :: "event \<Rightarrow> bool" where
  "is_refreshed (Refreshed offers) = True"
| "is_refreshed e = False"

definition visible :: "event list \<Rightarrow> event list" where
  "visible ev = filter (\<lambda>e. \<not> is_refreshed e) ev"



text \<open>The offer ids of the purchases made.\<close>

definition purchased_ids :: "buy_state \<Rightarrow> json list" where
  "purchased_ids st = map p_offer_txid (purchased st)"

text \<open>A confirmation count of at least 1.\<close>

definition at_least_one :: "json \<Rightarrow> bool" where
  "at_least_one c = (py_ge_int c 1 = Inr True)"

text \<open>
  Sequencing of a trace. \<open>p\<close> is the transaction of the last purchase while no poll has
  shown it confirmed; a purchase from whose result a transaction id was read sets it, a
  poll that returns at least one confirmation for it clears it.
\<close>

fun pending_after :: "string option \<Rightarrow> event list \<Rightarrow> string option" where
  "pending_after p [] = p"
| "pending_after p (Purchased x (JStr t) # ev) = pending_after (if t = [] then p else Some t) ev"
| "pending_after p (Confirmed t c # ev) =
     pending_after (if p = Some t \<and> at_least_one c then None else p) ev"
| "pending_after p (e # ev) = pending_after p ev"

text \<open>A trace is sequenced when no \<^verbatim>\<open>takeoffer\<close> is submitted while a transaction is pending.\<close>

fun sequenced :: "string option \<Rightarrow> event list \<Rightarrow> bool" where
  "sequenced p [] = True"
| "sequenced p (CallTakeOffer x # ev) = (p = None \<and> sequenced p ev)"
| "sequenced p (Purchased x (JStr t) # ev) = sequenced (if t = [] then p else Some t) ev"
| "sequenced p (Confirmed t c # ev) =
     sequenced (if p = Some t \<and> at_least_one c then None else p) ev"
| "sequenced p (e # ev) = sequenced p ev"

text \<open>
  A reply on which a poll of \<^verbatim>\<open>wait_for_tx_confirmed\<close> with threshold 1 raises: its
  confirmation count is \<open>-1\<close> or is not a number.
\<close>

definition wait_raises :: "rpc_reply \<Rightarrow> bool" where
  "wait_raises r =
     (case py_ge_int (get_tx_confirmations r) 1 of
        Inl e \<Rightarrow> True
      | Inr b \<Rightarrow> \<not> b \<and> py_eq_int (get_tx_confirmations r) (- 1))"


text \<open>Replies of the node for the examples.\<close>

definition pool2 :: json where
  "pool2 = JList [mk_offer ''oa'' ''1_1of2'', mk_offer ''ob'' ''1_2of2'']"

definition pool1 :: json where
  "pool1 = JList [mk_offer ''oa'' ''1_1of2'']"

definition confirmations :: "int \<Rightarrow> rpc_reply" where
  "confirmations n = Result (JDict [(''confirmations'', JInt n)])"

definition took :: "string \<Rightarrow> rpc_reply" where
  "took t = Result (JDict [(''txid'', JStr t)])"

fun is_dict :: "json \<Rightarrow> bool" where
  "is_dict (JDict d) = True"
| "is_dict v = False"

section \<open>Conversion of integers to floats\<close>

lemma int_to_float_0: "int_to_float 0 = Inr (Fl 0)"
  by code_simp

lemma int_to_float_1: "int_to_float 1 = Inr (Fl 1)"
  by code_simp

lemma int_to_float_2: "int_to_float 2 = Inr (Fl 2)"
  by code_simp

lemma int_to_float_3: "int_to_float 3 = Inr (Fl 3)"
  by code_simp

lemma int_to_float_5: "int_to_float 5 = Inr (Fl 5)"
  by code_simp

text \<open>Rounding: \<open>2\<^sup>5\<^sup>3 + 1\<close> is no double, the nearest one is \<open>2\<^sup>5\<^sup>3\<close>.\<close>

lemma int_to_float_rounds: "int_to_float (2 ^ 53 + 1) = Inr (Fl (2 ^ 53))"
  by code_simp

lemma int_to_float_overflow:
  "2 ^ 1024 - 2 ^ 970 \<le> \<bar>n\<bar> \<Longrightarrow> int_to_float n = Inl OverflowError"
  by (simp add: int_to_float_def)

section \<open>Properties of the balance lookup\<close>

lemma balance_scan_find:
  "balance_scan sf currency d =
     (case find (\<lambda>kv. lower (fst kv) = lower currency) d of
        None \<Rightarrow> None
      | Some kv \<Rightarrow> Some (py_float sf (snd kv)))"
  by (induction d) auto

text \<open>
  C10. The balance lookup matches the currency name exactly first: when the currency is
  a key of the returned balance map, the result is the value under that key. Otherwise
  it is the value of the first key equal to the requested currency ignoring case. It is
  0.0 when no key matches, when the result is not a dictionary, when the call raises, and
  whenever the body raises an exception (the value of a matched key that \<^verbatim>\<open>float\<close>
  rejects included, as \<open>float_or_zero\<close> says: a string that is no number, \<^verbatim>\<open>None\<close>, a
  list or a dictionary, an integer too large for a float).
\<close>

theorem get_currency_balance_lookup:
  "(map_of d currency = Some v \<longrightarrow>
      get_currency_balance sf (Result (JDict d)) currency = float_or_zero sf v)
   \<and> (map_of d currency = None
        \<and> find (\<lambda>kv. lower (fst kv) = lower currency) d = Some (k, v') \<longrightarrow>
      get_currency_balance sf (Result (JDict d)) currency = float_or_zero sf v')
   \<and> (find (\<lambda>kv. lower (fst kv) = lower currency) d = None \<longrightarrow>
      get_currency_balance sf (Result (JDict d)) currency = Fl 0)
   \<and> (\<not> is_dict j \<longrightarrow> get_currency_balance sf (Result j) currency = Fl 0)
   \<and> get_currency_balance sf (Raise msg) currency = Fl 0
   \<and> (get_currency_balance_body sf reply currency = Inl e \<longrightarrow>
      get_currency_balance sf reply currency = Fl 0)"
proof -
  have none: "map_of d currency = None"
    if "find (\<lambda>kv. lower (fst kv) = lower currency) d = None"
  proof (rule ccontr)
    assume "map_of d currency \<noteq> None"
    then obtain w where "(currency, w) \<in> set d" by (auto dest: map_of_SomeD)
    with that show False by (auto simp: find_None_iff)
  qed
  show ?thesis
    using none
    by (cases j)
      (auto simp: get_currency_balance_def get_currency_balance_body_def float_or_zero_def
        balance_scan_find split: sum.splits)
qed

theorem get_currency_balance_lookup_witness:
  "get_currency_balance (\<lambda>s. None) (Result (JDict [(''VLOTTO'', JInt 3), (''vlotto'', JInt 5)])) ''vlotto'' = Fl 5
   \<and> get_currency_balance (\<lambda>s. None) (Result (JDict [(''VRSC'', JInt 1), (''VLotto'', JInt 3), (''vLOTTO'', JInt 4)])) ''vlotto'' = Fl 3
   \<and> get_currency_balance (\<lambda>s. None) (Result (JDict [(''VRSC'', JInt 1)])) ''vlotto'' = Fl 0
   \<and> get_currency_balance (\<lambda>s. None) (Result (JList [])) ''vlotto'' = Fl 0
   \<and> get_currency_balance (\<lambda>s. None) (Result (JDict [(''vlotto'', JStr ''abc'')])) ''vlotto'' = Fl 0
   \<and> get_currency_balance (\<lambda>s. None) (Result (JDict [(''vlotto'', JInt (10 ^ 400))])) ''vlotto'' = Fl 0"
  using get_currency_balance_lookup [where d = "[(''VLOTTO'', JInt 3), (''vlotto'', JInt 5)]"
      and currency = "''vlotto''" and v = "JInt 5" and sf = "\<lambda>s. None"]
    get_currency_balance_lookup [where d = "[(''VRSC'', JInt 1), (''VLotto'', JInt 3), (''vLOTTO'', JInt 4)]"
      and currency = "''vlotto''" and sf = "\<lambda>s. None" and k = "''VLotto''" and v' = "JInt 3"]
    get_currency_balance_lookup [where d = "[(''VRSC'', JInt 1)]"
      and currency = "''vlotto''" and sf = "\<lambda>s. None"]
    get_currency_balance_lookup [where sf = "\<lambda>s. None" and j = "JList []" and currency = "''vlotto''"]
    get_currency_balance_lookup [where d = "[(''vlotto'', JStr ''abc'')]"
      and currency = "''vlotto''" and v = "JStr ''abc''" and sf = "\<lambda>s. None"]
    get_currency_balance_lookup [where d = "[(''vlotto'', JInt (10 ^ 400))]"
      and currency = "''vlotto''" and v = "JInt (10 ^ 400)" and sf = "\<lambda>s. None"]
  by (simp add: lower_def lower_char_def float_or_zero_def int_to_float_3 int_to_float_5
      int_to_float_overflow)

section \<open>Properties of the confirmation polling\<close>

lemma wait_pending_step:
  "pending m r \<Longrightarrow>
   wait_for_tx_confirmed txid m (r # rs) =
     (case wait_for_tx_confirmed txid m rs of
        (ev, out, rest) \<Rightarrow> (CallGetTransaction txid # Sleep 5000 # ev, out, rest))"
  by (simp add: pending_def Let_def)

lemma wait_pending_prefix:
  "\<forall>r \<in> set pre. pending m r \<Longrightarrow>
   wait_for_tx_confirmed txid m (pre @ rs) =
     (case wait_for_tx_confirmed txid m rs of
        (ev, out, rest) \<Rightarrow> (polls txid (length pre) @ ev, out, rest))"
  by (induction pre)
    (auto simp: wait_pending_step simp del: wait_for_tx_confirmed.simps split: prod.splits)

text \<open>
  C6. \<^verbatim>\<open>wait_for_tx_confirmed\<close> with a threshold of 1 polls the confirmation count of the
  transaction and sleeps 5 seconds after every poll that finds it pending, for as many
  polls as it takes: after any number of pending replies it returns the count of the
  first reply that reaches the threshold, it raises the orphaned error when that reply
  carries the count \<open>-1\<close>, and while every reply is pending it is still polling (it never
  gives up by itself).
\<close>

theorem wait_for_tx_confirmed_terminal:
  "(\<forall>r \<in> set pre. pending 1 r) \<longrightarrow>
     (py_ge_int (get_tx_confirmations r) 1 = Inr True \<longrightarrow>
        wait_for_tx_confirmed txid 1 (pre @ r # rest) =
          (polls txid (length pre)
             @ [CallGetTransaction txid, Confirmed txid (get_tx_confirmations r)],
           Returned (get_tx_confirmations r), rest))
     \<and> (get_tx_confirmations r = JInt (- 1) \<longrightarrow>
        wait_for_tx_confirmed txid 1 (pre @ r # rest) =
          (polls txid (length pre) @ [CallGetTransaction txid],
           Raised (RuntimeError (orphaned_msg txid)), rest))
     \<and> wait_for_tx_confirmed txid 1 pre =
          (polls txid (length pre) @ [CallGetTransaction txid], Starved, [])"
proof (intro impI conjI)
  assume pre: "\<forall>r \<in> set pre. pending 1 r"
  show "wait_for_tx_confirmed txid 1 (pre @ r # rest) =
          (polls txid (length pre)
             @ [CallGetTransaction txid, Confirmed txid (get_tx_confirmations r)],
           Returned (get_tx_confirmations r), rest)"
    if "py_ge_int (get_tx_confirmations r) 1 = Inr True"
    using that by (simp add: wait_pending_prefix [OF pre] Let_def)
  show "wait_for_tx_confirmed txid 1 (pre @ r # rest) =
          (polls txid (length pre) @ [CallGetTransaction txid],
           Raised (RuntimeError (orphaned_msg txid)), rest)"
    if "get_tx_confirmations r = JInt (- 1)"
    using that by (simp add: wait_pending_prefix [OF pre] Let_def)
  show "wait_for_tx_confirmed txid 1 pre =
          (polls txid (length pre) @ [CallGetTransaction txid], Starved, [])"
    using wait_pending_prefix [OF pre, of txid "[]"] by simp
qed

theorem wait_for_tx_confirmed_terminal_witness:
  "wait_for_tx_confirmed ''ab'' 1
     [Result (JDict [(''confirmations'', JInt 0)]), Result (JDict [(''confirmations'', JInt 0)]),
      Result (JDict [(''confirmations'', JInt 2)]), Raise ''late'']
   = ([CallGetTransaction ''ab'', Sleep 5000, CallGetTransaction ''ab'', Sleep 5000,
       CallGetTransaction ''ab'', Confirmed ''ab'' (JInt 2)], Returned (JInt 2), [Raise ''late''])
   \<and> wait_for_tx_confirmed ''ab'' 1
     [Result (JDict [(''confirmations'', JInt 0)]), Result (JDict [(''confirmations'', JInt (- 1))])]
   = ([CallGetTransaction ''ab'', Sleep 5000, CallGetTransaction ''ab''],
      Raised (RuntimeError (orphaned_msg ''ab'')), [])
   \<and> wait_for_tx_confirmed ''ab'' 1
     [Result (JDict [(''confirmations'', JInt 0)]), Result (JDict [(''confirmations'', JInt 0)])]
   = ([CallGetTransaction ''ab'', Sleep 5000, CallGetTransaction ''ab'', Sleep 5000,
       CallGetTransaction ''ab''], Starved, [])"
  using wait_for_tx_confirmed_terminal [where txid = "''ab''"
      and pre = "[Result (JDict [(''confirmations'', JInt 0)]), Result (JDict [(''confirmations'', JInt 0)])]"
      and r = "Result (JDict [(''confirmations'', JInt 2)])" and rest = "[Raise ''late'']"]
    wait_for_tx_confirmed_terminal [where txid = "''ab''"
      and pre = "[Result (JDict [(''confirmations'', JInt 0)])]"
      and r = "Result (JDict [(''confirmations'', JInt (- 1))])" and rest = "[]"]
  by (simp add: pending_def get_tx_confirmations_def)

lemma refresh_raise_fatal:
  "iteration qty st (Raise msg # rs) = ([CallGetOffers], Raised (RuntimeError msg), st, rs)"
  by (simp add: iteration_def refresh_offers_def)

lemma main_loop_raise_fatal:
  "bought st < qty \<Longrightarrow>
   main_loop qty st (Raise msg # rs) = ([CallGetOffers], Raised (RuntimeError msg), st, rs)"
  by (simp add: main_loop.simps [of qty st "Raise msg # rs"] refresh_raise_fatal)

text \<open>
  C9. \<^verbatim>\<open>get_tx_confirmations\<close> returns 0 when the call raises and when its result is not
  a dictionary, instead of propagating the error; so for a threshold of at least 1
  \<^verbatim>\<open>wait_for_tx_confirmed\<close> does not abort on such a reply: it sleeps 5 seconds and polls
  again, as for a pending transaction. The same failure of the call is fatal at the
  refresh of the offers: the exception leaves the loop.
\<close>

theorem get_tx_confirmations_swallows:
  "get_tx_confirmations (Raise msg) = JInt 0
   \<and> (\<not> is_dict tx \<longrightarrow> get_tx_confirmations (Result tx) = JInt 0)
   \<and> (1 \<le> m \<and> (r = Raise msg \<or> (r = Result tx \<and> \<not> is_dict tx)) \<longrightarrow>
        wait_for_tx_confirmed txid m (r # rs) =
          (case wait_for_tx_confirmed txid m rs of
             (ev, out, rest) \<Rightarrow> (CallGetTransaction txid # Sleep 5000 # ev, out, rest)))
   \<and> (bought st < qty \<longrightarrow>
        main_loop qty st (Raise msg # rs) =
          ([CallGetOffers], Raised (RuntimeError msg), st, rs))"
proof -
  have a: "get_tx_confirmations (Raise msg) = JInt 0"
    by (simp add: get_tx_confirmations_def)
  have b: "get_tx_confirmations (Result tx) = JInt 0" if "\<not> is_dict tx"
    using that by (cases tx) (simp_all add: get_tx_confirmations_def)
  have c: "pending m r" if "1 \<le> m" "r = Raise msg \<or> (r = Result tx \<and> \<not> is_dict tx)"
    using that a b by (auto simp: pending_def)
  show ?thesis
    using a b c main_loop_raise_fatal [of st qty msg rs]
    by (auto simp: wait_pending_step simp del: wait_for_tx_confirmed.simps)
qed

theorem get_tx_confirmations_swallows_witness:
  "get_tx_confirmations (Raise ''RPC connection error: timed out'') = JInt 0
   \<and> get_tx_confirmations (Result (JStr ''x'')) = JInt 0
   \<and> wait_for_tx_confirmed ''ab'' 1
        [Raise ''RPC connection error: timed out'', Result JNull,
         Result (JDict [(''confirmations'', JInt 1)])]
      = ([CallGetTransaction ''ab'', Sleep 5000, CallGetTransaction ''ab'', Sleep 5000,
          CallGetTransaction ''ab'', Confirmed ''ab'' (JInt 1)], Returned (JInt 1), [])"
  using get_tx_confirmations_swallows [where m = 1 and txid = "''ab''"
      and r = "Raise ''RPC connection error: timed out''"
      and msg = "''RPC connection error: timed out''" and tx = "JStr ''x''"
      and rs = "[Result JNull, Result (JDict [(''confirmations'', JInt 1)])]"]
    get_tx_confirmations_swallows [where m = 1 and txid = "''ab''"
      and r = "Result JNull" and tx = JNull
      and rs = "[Result (JDict [(''confirmations'', JInt 1)])]"]
  by (simp add: get_tx_confirmations_def Let_def)

section \<open>Properties of the offer selection\<close>

lemma find_offer_Some:
  "find_offer xs att = Returned (Some (offer, s)) \<Longrightarrow>
   \<exists>pre post. xs = pre @ offer # post \<and> (\<forall>x \<in> set pre. \<not> eligible att x)
     \<and> offer_txid_of offer = Inr (JStr s) \<and> s \<noteq> [] \<and> s \<notin> att"
proof (induction xs)
  case Nil
  then show ?case by simp
next
  case (Cons x xs)
  show ?case
  proof (cases "eligible att x")
    case True
    with Cons.prems have "x = offer \<and> offer_txid_of offer = Inr (JStr s) \<and> s \<noteq> [] \<and> s \<notin> att"
      by (auto simp: eligible_def split: sum.splits json.splits if_splits)
    then show ?thesis by (intro exI [of _ "[]"] exI [of _ xs]) simp
  next
    case False
    with Cons.prems have "find_offer xs att = Returned (Some (offer, s))"
      by (auto simp: eligible_def split: sum.splits json.splits if_splits)
    from Cons.IH [OF this] obtain pre post where
      "xs = pre @ offer # post" "\<forall>x \<in> set pre. \<not> eligible att x"
      "offer_txid_of offer = Inr (JStr s)" "s \<noteq> []" "s \<notin> att" by blast
    with False show ?thesis
      by (intro exI [of _ "x # pre"] exI [of _ post]) simp
  qed
qed

lemma find_offer_None:
  "find_offer xs att = Returned None \<Longrightarrow> \<forall>x \<in> set xs. \<not> eligible att x"
  by (induction xs) (auto simp: eligible_def split: sum.splits json.splits if_splits)

text \<open>
  C7. Offer selection is a function of the pool and the attempted set, so two selections
  from the same pool and attempted set give the same offer. The offer chosen is the first
  one, in the stable ascending order of ticket name, whose transaction id is present and
  not in the attempted set: no offer before it in the sorted pool is eligible, and the
  sorted pool is the pool in ascending order of name with offers of equal name in their
  original order. No offer is chosen exactly when no offer of the pool is eligible. The
  loop selects in this way from every pool it has refreshed.
\<close>

theorem select_next_first_eligible:
  "(select_next offers att = Returned (Some (offer, s)) \<longrightarrow>
      (\<exists>pre post. sort_key key_of offers = pre @ offer # post
         \<and> (\<forall>x \<in> set pre. \<not> eligible att x))
      \<and> offer \<in> set offers \<and> offer_txid_of offer = Inr (JStr s) \<and> s \<noteq> [] \<and> s \<notin> att)
   \<and> (select_next offers att = Returned None \<longrightarrow> (\<forall>x \<in> set offers. \<not> eligible att x))
   \<and> sorted (map key_of (sort_key key_of offers))
   \<and> set (sort_key key_of offers) = set offers
   \<and> (\<forall>k. filter (\<lambda>x. key_of x = k) (sort_key key_of offers) = filter (\<lambda>x. key_of x = k) offers)
   \<and> (refresh_offers (Result offers_raw) = Returned sorted_offers \<longrightarrow>
        find_offer sorted_offers att = select_next (extract_offers_list offers_raw) att)"
proof (intro conjI impI allI)
  assume a: "select_next offers att = Returned (Some (offer, s))"
  then have f: "find_offer (sort_key key_of offers) att = Returned (Some (offer, s))"
    by (auto simp: select_next_def sort_offers_def split: outcome.splits)
  from find_offer_Some [OF f] obtain pre post where
    p: "sort_key key_of offers = pre @ offer # post" "\<forall>x \<in> set pre. \<not> eligible att x"
      "offer_txid_of offer = Inr (JStr s)" "s \<noteq> []" "s \<notin> att" by blast
  show "\<exists>pre post. sort_key key_of offers = pre @ offer # post
         \<and> (\<forall>x \<in> set pre. \<not> eligible att x)" using p by blast
  have "offer \<in> set (sort_key key_of offers)" using p(1) by simp
  then show "offer \<in> set offers" by simp
  show "offer_txid_of offer = Inr (JStr s)" "s \<noteq> []" "s \<notin> att" using p by simp_all
next
  assume "select_next offers att = Returned None"
  then have "find_offer (sort_key key_of offers) att = Returned None"
    by (auto simp: select_next_def sort_offers_def split: outcome.splits)
  from find_offer_None [OF this] show "\<forall>x \<in> set offers. \<not> eligible att x" by simp
next
  show "sorted (map key_of (sort_key key_of offers))" by simp
  show "set (sort_key key_of offers) = set offers" by simp
  show "\<And>k. filter (\<lambda>x. key_of x = k) (sort_key key_of offers) = filter (\<lambda>x. key_of x = k) offers"
    by (rule sort_key_stable)
next
  assume "refresh_offers (Result offers_raw) = Returned sorted_offers"
  then show "find_offer sorted_offers att = select_next (extract_offers_list offers_raw) att"
    by (simp add: refresh_offers_def select_next_def)
qed

theorem select_next_first_eligible_witness:
  "select_next [mk_offer ''t2'' ''b_2'', mk_offer ''t1'' ''a_1'', mk_offer ''t0'' ''a_1''] {''t1''}
     = Returned (Some (mk_offer ''t0'' ''a_1'', ''t0''))
   \<and> offer_txid_of (mk_offer ''t0'' ''a_1'') = Inr (JStr ''t0'')
   \<and> select_next [mk_offer ''t2'' ''b_2'', mk_offer ''t1'' ''a_1'', mk_offer ''t0'' ''a_1'']
        {''t0'', ''t1'', ''t2''} = Returned None
   \<and> \<not> eligible {''t0'', ''t1'', ''t2''} (mk_offer ''t2'' ''b_2'')"
proof -
  let ?pool = "[mk_offer ''t2'' ''b_2'', mk_offer ''t1'' ''a_1'', mk_offer ''t0'' ''a_1'']"
  have a: "select_next ?pool {''t1''} = Returned (Some (mk_offer ''t0'' ''a_1'', ''t0''))"
    by code_simp
  have b: "select_next ?pool {''t0'', ''t1'', ''t2''} = Returned None"
    by code_simp
  show ?thesis
    using a b
      select_next_first_eligible [where offers = ?pool and att = "{''t1''}"
        and offer = "mk_offer ''t0'' ''a_1''" and s = "''t0''"]
      select_next_first_eligible [where offers = ?pool and att = "{''t0'', ''t1'', ''t2''}"]
    by simp
qed

section \<open>Properties of the liquidity step\<close>

lemma deficit_zero:
  "fle needed bal \<Longrightarrow> deficit_of needed bal = Fl 0"
  by (cases needed; cases bal) (auto simp: deficit_of_def py_max_def)

lemma deficit_with_buffer_zero:
  "deficit_with_buffer_of (Fl 0) = Fl 0"
  by (simp add: deficit_with_buffer_of_def)

lemma round_half_even_nonpos: "y \<le> 0 \<Longrightarrow> round_half_even y \<le> 0"
proof -
  assume y: "y \<le> 0"
  from floor_mono [OF y] have f: "\<lfloor>y\<rfloor> \<le> 0" by simp
  show ?thesis
  proof (cases "\<lfloor>y\<rfloor> = 0")
    case True
    then have "y - of_int \<lfloor>y\<rfloor> \<le> 0" using y by simp
    then have "y - of_int \<lfloor>y\<rfloor> < 1 / 2" by linarith
    then show ?thesis using True by (simp only: round_half_even_def Let_def if_True)
  next
    case False
    with f have g: "\<lfloor>y\<rfloor> + 1 \<le> 0" by linarith
    show ?thesis
      unfolding round_half_even_def Let_def using f g by (simp only: split: if_splits) auto
  qed
qed

lemma unit_of_positive: "unit_of n x u = Some v \<Longrightarrow> 0 < u \<Longrightarrow> 0 < v"
  by (induction n x u rule: unit_of.induct) (auto split: if_splits)

lemma to_double_nonpos:
  assumes "to_double x = Some d" "x \<le> 0"
  shows "d \<le> 0"
proof (cases "x = 0")
  case True
  with assms show ?thesis by (simp add: to_double_def)
next
  case False
  with assms obtain u where u: "unit_of 1100 \<bar>x\<bar> 1 = Some u"
    and d: "d = of_int (round_half_even (x / u)) * u"
    by (auto simp: to_double_def split: option.splits)
  from unit_of_positive [OF u] have "0 < u" by simp
  with assms(2) have "x / u \<le> 0" by (simp add: divide_nonpos_pos)
  then have "round_half_even (x / u) \<le> 0" by (rule round_half_even_nonpos)
  with \<open>0 < u\<close> d show ?thesis by (simp add: mult_nonpos_nonneg)
qed

lemma double_query_amount_none:
  "needed \<le> bal \<Longrightarrow> double_query_amount needed bal = None"
proof -
  assume "needed \<le> bal"
  then have "needed - bal \<le> 0" by simp
  then have "\<And>d. dbl_sub needed bal = Some d \<Longrightarrow> d \<le> 0"
    unfolding dbl_sub_def by (rule to_double_nonpos [rotated])
  then show ?thesis
    by (auto simp: double_query_amount_def Let_def split: option.splits)
qed

text \<open>
  C5. The liquidity step computes the deficit as \<open>max 0 (required - balance)\<close>, from the
  required amount \<^verbatim>\<open>qty * 1.0\<close> and the balance that the lookup has returned. Whenever
  the required amount is at most that balance the deficit is zero and no
  conversion call is made: neither \<^verbatim>\<open>getcurrencyconverters\<close> nor \<^verbatim>\<open>sendcurrency\<close> is
  called, whatever the user answers, and after the confirmation the step returns at once
  with every later reply of the node left for the purchases. Computed in binary64 the
  guard is false as well: a difference that is not positive rounds to a double that is
  not positive, so no query amount exists. (A quantity too large for a float raises
  before any call is made.)
\<close>

theorem ensure_liquidity_no_conversion:
  "deficit_of (Fl n) (Fl b) = Fl (max 0 (n - b))
   \<and> (needed_of qty = Inr needed \<and> fle needed (get_currency_balance sf reply ''vlotto'') \<longrightarrow>
        deficit_of needed (get_currency_balance sf reply ''vlotto'') = Fl 0
        \<and> ensure_liquidity sf qty ''y'' (reply # rest) =
            ([CallGetBalance], Returned (get_currency_balance sf reply ''vlotto''), rest)
        \<and> (\<forall>e \<in> set (fst (ensure_liquidity sf qty confirm (reply # rest))).
              \<not> is_conversion_call e))
   \<and> (needed_of qty = Inl err \<longrightarrow> ensure_liquidity sf qty confirm rs = ([], Raised err, rs))
   \<and> (dn \<le> db \<longrightarrow> double_query_amount dn db = None)"
proof -
  have a: "deficit_of (Fl n) (Fl b) = Fl (max 0 (n - b))"
    by (simp add: deficit_of_def py_max_def max_def)
  show ?thesis
    using a double_query_amount_none [of dn db]
    by (auto simp: ensure_liquidity_def Let_def deficit_zero deficit_with_buffer_zero)
qed

lemma needed_of_2: "needed_of 2 = Inr (Fl 2)"
  by (simp add: needed_of_def int_to_float_2 ticket_price_def)

theorem ensure_liquidity_no_conversion_witness:
  "deficit_of (Fl 2) (Fl 5) = Fl 0
   \<and> needed_of 2 = Inr (Fl 2)
   \<and> fle (Fl 2) (get_currency_balance (\<lambda>s. None) (Result (JDict [(''vlotto'', JInt 5)])) ''vlotto'')
   \<and> ensure_liquidity (\<lambda>s. None) 2 ''y'' [Result (JDict [(''vlotto'', JInt 5)]), Result (JList [])]
       = ([CallGetBalance], Returned (Fl 5), [Result (JList [])])"
proof -
  have v: "get_currency_balance (\<lambda>s. None) (Result (JDict [(''vlotto'', JInt 5)])) ''vlotto'' = Fl 5"
    by (simp add: get_currency_balance_def get_currency_balance_body_def int_to_float_5)
  have h: "fle (Fl 2) (get_currency_balance (\<lambda>s. None) (Result (JDict [(''vlotto'', JInt 5)])) ''vlotto'')"
    by (simp add: v)
  show ?thesis
    using h v needed_of_2 ensure_liquidity_no_conversion [where n = 2 and b = 5 and qty = 2
        and needed = "Fl 2" and sf = "\<lambda>s. None"
        and reply = "Result (JDict [(''vlotto'', JInt 5)])" and rest = "[Result (JList [])]"]
    by simp
qed

text \<open>
  A balance that is an integer too large for a float is read as 0.0, so the deficit is
  the whole amount and the route is asked for.
\<close>

lemma overflowing_balance_example:
  "get_currency_balance sf (Result (JDict [(''vlotto'', JInt (10 ^ 400))])) ''vlotto'' = Fl 0
   \<and> deficit_of (Fl 2) (Fl 0) = Fl 2"
  by (simp add: get_currency_balance_def get_currency_balance_body_def int_to_float_overflow
      deficit_of_def py_max_def)

lemma round_half_even_of_int: "round_half_even (of_int k) = k"
  by (simp add: round_half_even_def)

text \<open>
  C8. With a balance of 0 in the target currency and 2 tickets at 1.0 each, the deficit
  is 2.0, the buffer of 1% makes it \<open>2 * (1 + 0.01)\<close>, and the converter query asks for
  that amount rounded to 8 decimal places, 2.02: it is the amount of the
  \<^verbatim>\<open>getcurrencyconverters\<close> call that follows the balance lookup. Computed in binary64
  the amount is the double nearest to 2.02, the one Python writes as \<^verbatim>\<open>2.02\<close>.
\<close>

theorem buffered_deficit_example:
  "needed_of 2 = Inr (Fl 2)
   \<and> deficit_of (Fl 2) (Fl 0) = Fl 2
   \<and> deficit_with_buffer_of (Fl 2) = Fl (2 * (1 + 1 / 100))
   \<and> py_round (Fl (2 * (1 + 1 / 100))) 8 = Fl (202 / 100)
   \<and> take 2 (fst (ensure_liquidity sf 2 confirm (Result (JDict [(''vlotto'', JInt 0)]) # rs)))
       = [CallGetBalance, CallGetConverters (Fl (202 / 100))]
   \<and> double_query_amount 2 0 = to_double (202 / 100)
   \<and> to_double (202 / 100) = Some (4548635623644201 / 2 ^ 51)"
proof -
  have e: "double_query_amount 2 0 = to_double (202 / 100)"
    by code_simp
  have f: "to_double (202 / 100) = Some (4548635623644201 / 2 ^ 51)"
    by code_simp
  have a: "deficit_of (Fl 2) (Fl 0) = Fl 2"
    by (simp add: deficit_of_def py_max_def)
  have b: "deficit_with_buffer_of (Fl 2) = Fl (2 * (1 + 1 / 100))"
    by (simp add: deficit_with_buffer_of_def buffer_percent_def)
  have "(2 * (1 + 1 / 100)) * 10 ^ 8 = (of_int 202000000 :: real)" by simp
  then have "round_half_even ((2 * (1 + 1 / 100)) * 10 ^ 8) = 202000000"
    by (simp only: round_half_even_of_int)
  then have c: "py_round (Fl (2 * (1 + 1 / 100))) 8 = Fl (202 / 100)"
    by simp
  have bal: "get_currency_balance sf (Result (JDict [(''vlotto'', JInt 0)])) ''vlotto'' = Fl 0"
    by (simp add: get_currency_balance_def get_currency_balance_body_def int_to_float_0)
  have d: "take 2 (fst (ensure_liquidity sf 2 confirm (Result (JDict [(''vlotto'', JInt 0)]) # rs)))
       = [CallGetBalance, CallGetConverters (Fl (202 / 100))]"
    using c
    by (auto simp: ensure_liquidity_def needed_of_2 bal a b Let_def
        get_best_exact_out_converter_def
        simp del: py_round.simps
        split: list.splits rpc_reply.splits outcome.splits prod.splits)
  show ?thesis using needed_of_2 a b c d e f by (intro conjI)
qed

theorem buffered_deficit_example_witness:
  "take 2 (fst (ensure_liquidity (\<lambda>s. None) 2 ''y'' [Result (JDict [(''vlotto'', JInt 0)])]))
     = [CallGetBalance, CallGetConverters (Fl (202 / 100))]
   \<and> needed_of 2 = Inr (Fl 2)
   \<and> deficit_of (Fl 2) (Fl 0) = Fl 2"
  using buffered_deficit_example [where sf = "\<lambda>s. None" and confirm = "''y''" and rs = "[]"]
  by simp

section \<open>Properties of the converter query\<close>

lemma quoted_amount_positive:
  "quoted_amount sf d = Inr (Some x) \<Longrightarrow> positive x"
proof -
  assume "quoted_amount sf d = Inr (Some x)"
  then obtain vals others where "filter positive vals = x # others"
    by (auto simp: quoted_amount_def split: sum.splits list.splits)
  then have "x \<in> set (filter positive vals)" by simp
  then show ?thesis by simp
qed

lemma candidate_positive:
  assumes "candidate sf c = Inr (Some (x, via))"
  shows "\<exists>r. x = Fl r \<and> 0 < r"
proof -
  from assms obtain d where "quoted_amount sf d = Inr (Some x)"
    by (auto simp: candidate_def split: sum.splits json.splits if_splits option.splits)
  then have "positive x" by (rule quoted_amount_positive)
  then show ?thesis by (cases x) auto
qed

lemma best_loop_Some:
  assumes "\<forall>c \<in> set cs. examinable sf c"
  shows "\<exists>r via. best_loop sf cs (Some (Fl b0, v0)) = Inr (Some (Fl r, via))
           \<and> r \<le> b0 \<and> (\<forall>q \<in> set (quotes sf cs). r \<le> fst q)
           \<and> ((r, via) = (b0, v0)
                \<or> (\<exists>pre post. quotes sf cs = pre @ (r, via) # post \<and> r < b0
                      \<and> (\<forall>q \<in> set pre. r < fst q)))"
  using assms
proof (induction cs arbitrary: b0 v0)
  case Nil
  then show ?case by simp
next
  case (Cons c cs)
  from Cons.prems have ex: "examinable sf c" and rest: "\<forall>c \<in> set cs. examinable sf c"
    by simp_all
  from ex obtain q where q: "candidate sf c = Inr q"
    by (auto simp: examinable_def split: sum.splits)
  show ?case
  proof (cases q)
    case None
    with q Cons.IH [OF rest, of b0 v0] show ?thesis by simp
  next
    case (Some xv)
    obtain x v where xv: "xv = (x, v)" by (cases xv)
    with q Some candidate_positive obtain a where a: "x = Fl a" "0 < a" by blast
    have qs: "quotes sf (c # cs) = (a, v) # quotes sf cs"
      using q Some xv a by simp
    show ?thesis
    proof (cases "a < b0")
      case True
      from Cons.IH [OF rest, of a v] obtain r via where
        r: "best_loop sf cs (Some (Fl a, v)) = Inr (Some (Fl r, via))" "r \<le> a"
          "\<forall>q \<in> set (quotes sf cs). r \<le> fst q"
          "(r, via) = (a, v)
             \<or> (\<exists>pre post. quotes sf cs = pre @ (r, via) # post \<and> r < a
                   \<and> (\<forall>q \<in> set pre. r < fst q))"
        by blast
      have loop: "best_loop sf (c # cs) (Some (Fl b0, v0)) = Inr (Some (Fl r, via))"
        using q Some xv a True r(1) by simp
      have pos: "\<exists>pre post. quotes sf (c # cs) = pre @ (r, via) # post \<and> r < b0
                   \<and> (\<forall>q \<in> set pre. r < fst q)"
      proof (cases "(r, via) = (a, v)")
        case True
        with qs \<open>a < b0\<close> show ?thesis
          by (intro exI [of _ "[]"] exI [of _ "quotes sf cs"]) simp
      next
        case False
        with r(4) obtain pre post where
          "quotes sf cs = pre @ (r, via) # post" "r < a" "\<forall>q \<in> set pre. r < fst q"
          by blast
        with qs \<open>a < b0\<close> show ?thesis
          by (intro exI [of _ "(a, v) # pre"] exI [of _ post]) simp
      qed
      show ?thesis
        using loop pos r(2,3) True qs by (intro exI [of _ r] exI [of _ via]) auto
    next
      case False
      from Cons.IH [OF rest, of b0 v0] obtain r via where
        r: "best_loop sf cs (Some (Fl b0, v0)) = Inr (Some (Fl r, via))" "r \<le> b0"
          "\<forall>q \<in> set (quotes sf cs). r \<le> fst q"
          "(r, via) = (b0, v0)
             \<or> (\<exists>pre post. quotes sf cs = pre @ (r, via) # post \<and> r < b0
                   \<and> (\<forall>q \<in> set pre. r < fst q))"
        by blast
      have loop: "best_loop sf (c # cs) (Some (Fl b0, v0)) = Inr (Some (Fl r, via))"
        using q Some xv a False r(1) by simp
      have pos: "(r, via) = (b0, v0)
             \<or> (\<exists>pre post. quotes sf (c # cs) = pre @ (r, via) # post \<and> r < b0
                   \<and> (\<forall>q \<in> set pre. r < fst q))"
      proof (cases "(r, via) = (b0, v0)")
        case True
        then show ?thesis by simp
      next
        case neq: False
        with r(4) obtain pre post where
          "quotes sf cs = pre @ (r, via) # post" "r < b0" "\<forall>q \<in> set pre. r < fst q"
          by blast
        with qs False have "quotes sf (c # cs) = ((a, v) # pre) @ (r, via) # post \<and> r < b0
                   \<and> (\<forall>q \<in> set ((a, v) # pre). r < fst q)"
          by auto
        then show ?thesis by blast
      qed
      show ?thesis
        using loop pos r(2,3) False qs by (intro exI [of _ r] exI [of _ via]) auto
    qed
  qed
qed

lemma best_loop_None:
  assumes "\<forall>c \<in> set cs. examinable sf c"
  shows "(quotes sf cs = [] \<longrightarrow> best_loop sf cs None = Inr None)
         \<and> (quotes sf cs \<noteq> [] \<longrightarrow>
              (\<exists>r via pre post. best_loop sf cs None = Inr (Some (Fl r, via))
                 \<and> quotes sf cs = pre @ (r, via) # post
                 \<and> (\<forall>q \<in> set (quotes sf cs). r \<le> fst q)
                 \<and> (\<forall>q \<in> set pre. r < fst q)))"
  using assms
proof (induction cs)
  case Nil
  then show ?case by simp
next
  case (Cons c cs)
  from Cons.prems have ex: "examinable sf c" and rest: "\<forall>c \<in> set cs. examinable sf c"
    by simp_all
  from ex obtain q where q: "candidate sf c = Inr q"
    by (auto simp: examinable_def split: sum.splits)
  show ?case
  proof (cases q)
    case None
    with q Cons.IH [OF rest] show ?thesis by simp
  next
    case (Some xv)
    obtain x v where xv: "xv = (x, v)" by (cases xv)
    with q Some candidate_positive obtain a where a: "x = Fl a" "0 < a" by blast
    have qs: "quotes sf (c # cs) = (a, v) # quotes sf cs"
      using q Some xv a by simp
    from best_loop_Some [OF rest, of a v] obtain r via where
      r: "best_loop sf cs (Some (Fl a, v)) = Inr (Some (Fl r, via))" "r \<le> a"
        "\<forall>q \<in> set (quotes sf cs). r \<le> fst q"
        "(r, via) = (a, v)
           \<or> (\<exists>pre post. quotes sf cs = pre @ (r, via) # post \<and> r < a
                 \<and> (\<forall>q \<in> set pre. r < fst q))"
      by blast
    have loop: "best_loop sf (c # cs) None = Inr (Some (Fl r, via))"
      using q Some xv a r(1) by simp
    have "\<exists>pre post. quotes sf (c # cs) = pre @ (r, via) # post \<and> (\<forall>q \<in> set pre. r < fst q)"
    proof (cases "(r, via) = (a, v)")
      case True
      with qs show ?thesis by (intro exI [of _ "[]"] exI [of _ "quotes sf cs"]) simp
    next
      case False
      with r(4) obtain pre post where
        "quotes sf cs = pre @ (r, via) # post" "r < a" "\<forall>q \<in> set pre. r < fst q"
        by blast
      with qs show ?thesis
        by (intro exI [of _ "(a, v) # pre"] exI [of _ post]) simp
    qed
    then obtain pre post where
      p: "quotes sf (c # cs) = pre @ (r, via) # post" "\<forall>q \<in> set pre. r < fst q" by blast
    have m: "\<forall>q \<in> set (quotes sf (c # cs)). r \<le> fst q"
      using qs r(2,3) by simp
    have "quotes sf (c # cs) \<noteq> []" using qs by simp
    moreover have "\<exists>r via pre post. best_loop sf (c # cs) None = Inr (Some (Fl r, via))
                 \<and> quotes sf (c # cs) = pre @ (r, via) # post
                 \<and> (\<forall>q \<in> set (quotes sf (c # cs)). r \<le> fst q)
                 \<and> (\<forall>q \<in> set pre. r < fst q)"
      using loop p m by blast
    ultimately show ?thesis by blast
  qed
qed


lemma py_round_int: "py_round (Fl (of_int k)) n = Fl (of_int k)"
proof -
  have "of_int k * (10::real) ^ n = of_int (k * 10 ^ n)" by simp
  then have "round_half_even (of_int k * 10 ^ n) = k * 10 ^ n"
    by (simp only: round_half_even_def Let_def floor_of_int) simp
  then show ?thesis by simp
qed

text \<open>
  C3 (amended). Provided every entry of the list can be examined without an exception
  (it is a dictionary or falsy, every string among its source amounts parses as a float
  and every integer among them is in the range of a float), the route returned is the one with the minimal required amount among the
  usable candidates: the entries with a name and a non-empty dictionary of source
  amounts, each quoting the first positive value of that dictionary. No usable candidate
  quotes less, every usable candidate discovered before it quotes strictly more (the
  first seen wins a tie), and the amount is rounded to 8 places. With no usable
  candidate the call raises the error for no route; for an empty list and for a result
  that is not a list it raises the error for no converter.
\<close>

theorem best_route_minimal:
  "(list_all (examinable sf) cs \<longrightarrow>
     (quotes sf cs = [] \<longrightarrow>
        get_best_exact_out_converter sf f t amt (Result (JList cs) # rest) =
          ([CallGetConverters (py_round amt 8)],
           Raised (RuntimeError (if cs = [] then no_converters_msg f t else no_route_msg f t)),
           rest))
     \<and> (quotes sf cs \<noteq> [] \<longrightarrow>
          (\<exists>r via pre post.
             get_best_exact_out_converter sf f t amt (Result (JList cs) # rest) =
               ([CallGetConverters (py_round amt 8)], Returned (py_round (Fl r) 8, via), rest)
             \<and> quotes sf cs = pre @ (r, via) # post
             \<and> (\<forall>q \<in> set (quotes sf cs). r \<le> fst q)
             \<and> (\<forall>q \<in> set pre. r < fst q))))
   \<and> (\<not> is_list res \<longrightarrow>
        get_best_exact_out_converter sf f t amt (Result res # rest) =
          ([CallGetConverters (py_round amt 8)],
           Raised (RuntimeError (no_converters_msg f t)), rest))"
proof (rule conjI)
  show "list_all (examinable sf) cs \<longrightarrow>
     (quotes sf cs = [] \<longrightarrow>
        get_best_exact_out_converter sf f t amt (Result (JList cs) # rest) =
          ([CallGetConverters (py_round amt 8)],
           Raised (RuntimeError (if cs = [] then no_converters_msg f t else no_route_msg f t)),
           rest))
     \<and> (quotes sf cs \<noteq> [] \<longrightarrow>
          (\<exists>r via pre post.
             get_best_exact_out_converter sf f t amt (Result (JList cs) # rest) =
               ([CallGetConverters (py_round amt 8)], Returned (py_round (Fl r) 8, via), rest)
             \<and> quotes sf cs = pre @ (r, via) # post
             \<and> (\<forall>q \<in> set (quotes sf cs). r \<le> fst q)
             \<and> (\<forall>q \<in> set pre. r < fst q)))"
  proof (intro impI conjI)
    assume "list_all (examinable sf) cs"
    then have ex: "\<forall>c \<in> set cs. examinable sf c" by (simp add: list_all_iff)
    note bl = best_loop_None [OF ex]
    show "get_best_exact_out_converter sf f t amt (Result (JList cs) # rest) =
            ([CallGetConverters (py_round amt 8)],
             Raised (RuntimeError (if cs = [] then no_converters_msg f t else no_route_msg f t)),
             rest)"
      if "quotes sf cs = []"
      using that bl by (simp add: get_best_exact_out_converter_def best_of_result_def Let_def)
    show "\<exists>r via pre post.
               get_best_exact_out_converter sf f t amt (Result (JList cs) # rest) =
                 ([CallGetConverters (py_round amt 8)], Returned (py_round (Fl r) 8, via), rest)
               \<and> quotes sf cs = pre @ (r, via) # post
               \<and> (\<forall>q \<in> set (quotes sf cs). r \<le> fst q)
               \<and> (\<forall>q \<in> set pre. r < fst q)"
      if ne: "quotes sf cs \<noteq> []"
    proof -
      from ne bl obtain r via pre post where
        r: "best_loop sf cs None = Inr (Some (Fl r, via))"
          "quotes sf cs = pre @ (r, via) # post"
          "\<forall>q \<in> set (quotes sf cs). r \<le> fst q" "\<forall>q \<in> set pre. r < fst q"
        by blast
      from ne have "cs \<noteq> []" by auto
      with r(1) have "get_best_exact_out_converter sf f t amt (Result (JList cs) # rest) =
                 ([CallGetConverters (py_round amt 8)], Returned (py_round (Fl r) 8, via), rest)"
        by (simp add: get_best_exact_out_converter_def best_of_result_def Let_def
            del: py_round.simps)
      with r(2,3,4) show ?thesis by blast
    qed
  qed
  show "\<not> is_list res \<longrightarrow>
        get_best_exact_out_converter sf f t amt (Result res # rest) =
          ([CallGetConverters (py_round amt 8)],
           Raised (RuntimeError (no_converters_msg f t)), rest)"
    by (cases res) (simp_all add: get_best_exact_out_converter_def best_of_result_def)
qed

lemma candidate_of_int:
  "int_to_float k = Inr (Fl r) \<Longrightarrow>
   candidate (\<lambda>s. None) (mk_converter n (JInt k)) =
     (if n \<noteq> [] \<and> 0 < r then Inr (Some (Fl r, JStr n)) else Inr None)"
  by (simp add: candidate_def mk_converter_def or_empty_get_def dict_get_def
      quoted_amount_def)

lemma candidate_nameless:
  "candidate (\<lambda>s. None) (nameless_converter (JInt k)) = Inr None"
  by (simp add: candidate_def nameless_converter_def or_empty_get_def dict_get_def)

lemmas example_candidates =
  candidate_of_int [OF int_to_float_0] candidate_of_int [OF int_to_float_1]
  candidate_of_int [OF int_to_float_2] candidate_of_int [OF int_to_float_3]
  candidate_nameless

text \<open>
  An integer amount too large for a float makes the conversion raise: the entry cannot
  be examined, and the call raises \<^verbatim>\<open>OverflowError\<close>.
\<close>

lemma overflowing_amount_example:
  "candidate sf (mk_converter ''a'' (JInt (10 ^ 400))) = Inl OverflowError
   \<and> \<not> examinable sf (mk_converter ''a'' (JInt (10 ^ 400)))
   \<and> get_best_exact_out_converter sf ''VRSC'' ''vlotto'' (Fl 1)
       [Result (JList [mk_converter ''a'' (JInt (10 ^ 400)), mk_converter ''b'' (JInt 2)])]
     = ([CallGetConverters (py_round (Fl 1) 8)], Raised OverflowError, [])"
proof -
  have c: "candidate sf (mk_converter ''a'' (JInt (10 ^ 400))) = Inl OverflowError"
    by (simp add: candidate_def mk_converter_def or_empty_get_def dict_get_def
        quoted_amount_def int_to_float_overflow)
  then show ?thesis
    by (simp add: examinable_def get_best_exact_out_converter_def best_of_result_def
        del: py_round.simps)
qed

theorem best_route_minimal_witness:
  "list_all (examinable (\<lambda>s. None))
     [mk_converter ''a'' (JInt 3), mk_converter ''b'' (JInt 2), mk_converter ''c'' (JInt 2)]
   \<and> get_best_exact_out_converter (\<lambda>s. None) ''VRSC'' ''vlotto'' (Fl 1)
       [Result (JList [mk_converter ''a'' (JInt 3), mk_converter ''b'' (JInt 2),
                       mk_converter ''c'' (JInt 2)])]
     = ([CallGetConverters (Fl 1)], Returned (Fl 2, JStr ''b''), [])
   \<and> get_best_exact_out_converter (\<lambda>s. None) ''VRSC'' ''vlotto'' (Fl 1)
       [Result (JList [mk_converter ''a'' (JInt 0)])]
     = ([CallGetConverters (Fl 1)], Raised (RuntimeError (no_route_msg ''VRSC'' ''vlotto'')), [])
   \<and> get_best_exact_out_converter (\<lambda>s. None) ''VRSC'' ''vlotto'' (Fl 1) [Result JNull]
     = ([CallGetConverters (Fl 1)],
        Raised (RuntimeError (no_converters_msg ''VRSC'' ''vlotto'')), [])"
proof -
  let ?cs = "[mk_converter ''a'' (JInt 3), mk_converter ''b'' (JInt 2), mk_converter ''c'' (JInt 2)]"
  have r1: "py_round (Fl 1) 8 = Fl 1" using py_round_int [of 1 8] by simp
  have ex: "list_all (examinable (\<lambda>s. None)) ?cs"
    by (simp add: examinable_def example_candidates)
  have qs: "quotes (\<lambda>s. None) ?cs = [(3, JStr ''a''), (2, JStr ''b''), (2, JStr ''c'')]"
    by (simp add: example_candidates)
  have r2: "py_round (Fl 2) 8 = Fl 2" using py_round_int [of 2 8] by simp
  have r3: "py_round (Fl 3) 8 = Fl 3" using py_round_int [of 3 8] by simp
  have a: "get_best_exact_out_converter (\<lambda>s. None) ''VRSC'' ''vlotto'' (Fl 1) [Result (JList ?cs)]
          = ([CallGetConverters (Fl 1)], Returned (Fl 2, JStr ''b''), [])"
    using r1 r2 r3
    by (simp add: get_best_exact_out_converter_def best_of_result_def example_candidates
        del: py_round.simps)
  have ex0: "list_all (examinable (\<lambda>s. None)) [mk_converter ''a'' (JInt 0)]"
    by (simp add: examinable_def example_candidates)
  have q0: "quotes (\<lambda>s. None) [mk_converter ''a'' (JInt 0)] = []"
    by (simp add: example_candidates)
  from best_route_minimal [where sf = "\<lambda>s. None" and cs = "[mk_converter ''a'' (JInt 0)]"
      and f = "''VRSC''" and t = "''vlotto''" and amt = "Fl 1" and rest = "[]"] ex0 q0 r1
  have b: "get_best_exact_out_converter (\<lambda>s. None) ''VRSC'' ''vlotto'' (Fl 1)
       [Result (JList [mk_converter ''a'' (JInt 0)])]
     = ([CallGetConverters (Fl 1)], Raised (RuntimeError (no_route_msg ''VRSC'' ''vlotto'')), [])"
    by simp
  from best_route_minimal [where sf = "\<lambda>s. None" and res = JNull
      and f = "''VRSC''" and t = "''vlotto''" and amt = "Fl 1" and rest = "[]"] r1
  have c: "get_best_exact_out_converter (\<lambda>s. None) ''VRSC'' ''vlotto'' (Fl 1) [Result JNull]
     = ([CallGetConverters (Fl 1)],
        Raised (RuntimeError (no_converters_msg ''VRSC'' ''vlotto'')), [])"
    by simp
  show ?thesis using ex a b c by (intro conjI)
qed

text \<open>
  The claim as the specification states it fails at two inputs. A converter without a
  name is skipped although it quotes the smallest positive amount: the route returned
  costs 2 while the nameless candidate quotes 1. And a candidate whose amount is a string
  that \<^verbatim>\<open>float\<close> rejects makes the call raise \<^verbatim>\<open>ValueError\<close> where a usable route exists.
\<close>

theorem best_route_counterexample:
  "get_best_exact_out_converter (\<lambda>s. None) ''VRSC'' ''vlotto'' (Fl 1)
       [Result (JList [nameless_converter (JInt 1), mk_converter ''b'' (JInt 2)])]
     = ([CallGetConverters (Fl 1)], Returned (Fl 2, JStr ''b''), [])
   \<and> quoted_amount (\<lambda>s. None) [(''VRSC'', JInt 1)] = Inr (Some (Fl 1))
   \<and> get_best_exact_out_converter (\<lambda>s. None) ''VRSC'' ''vlotto'' (Fl 1)
       [Result (JList [mk_converter ''a'' (JStr ''abc''), mk_converter ''b'' (JInt 2)])]
     = ([CallGetConverters (Fl 1)], Raised ValueError, [])"
proof -
  have r1: "py_round (Fl 1) 8 = Fl 1" using py_round_int [of 1 8] by simp
  have r2: "py_round (Fl 2) 8 = Fl 2" using py_round_int [of 2 8] by simp
  have c: "candidate (\<lambda>s. None) (mk_converter ''a'' (JStr ''abc'')) = Inl ValueError"
    by (simp add: candidate_def mk_converter_def or_empty_get_def dict_get_def quoted_amount_def)
  have a: "quoted_amount (\<lambda>s. None) [(''VRSC'', JInt 1)] = Inr (Some (Fl 1))"
    by (simp add: quoted_amount_def int_to_float_1)
  show ?thesis
    using r1 r2 a
    by (simp add: get_best_exact_out_converter_def best_of_result_def example_candidates c
        mk_converter_def [symmetric] del: py_round.simps)
qed

section \<open>Properties of the purchase loop\<close>

text \<open>
  C4. The handler of a rejected attempt is meant to wait for the previous transaction
  (\<^verbatim>\<open>if last_txid: wait_for_tx_confirmed(rpc, last_txid, ...)\<close>), but \<^verbatim>\<open>last_txid\<close> is
  assigned only by the purchase that completes the order. In the scenario of the
  specification (two tickets wanted, the first purchase succeeds with transaction
  \<open>t1\<close> and is confirmed, the second attempt is rejected) the program therefore sleeps
  5 seconds after the rejected \<^verbatim>\<open>takeoffer\<close> and does not poll \<open>t1\<close> again; it then
  retries the same offer, which the handler has removed from the attempted set.
\<close>

theorem rejected_after_purchase_sleeps:
  "visible (fst (buy_tickets 2
       [Result pool2, took ''t1'', confirmations 1, Result pool2,
        Raise ''bad-txns: Rejected'', Result pool2, took ''t2'', confirmations 1]))
   = [CallGetOffers, CallTakeOffer ''oa'', Purchased ''oa'' (JStr ''t1''),
      CallGetTransaction ''t1'', Confirmed ''t1'' (JInt 1),
      CallGetOffers, CallTakeOffer ''ob'', Sleep 5000,
      CallGetOffers, CallTakeOffer ''ob'', Purchased ''ob'' (JStr ''t2''),
      CallGetTransaction ''t2'', Confirmed ''t2'' (JInt 1)]"
  by code_simp

subsection \<open>The replies left are a suffix of the replies given\<close>

lemma wait_for_tx_confirmed_suffix:
  "wait_for_tx_confirmed t m rs = (ev, out, rest) \<Longrightarrow> \<exists>pre. rs = pre @ rest"
proof (induction rs arbitrary: ev out rest)
  case Nil
  then show ?case by simp
next
  case (Cons r rs)
  show ?case
  proof (cases "pending m r")
    case True
    obtain ev' out' rest' where w: "wait_for_tx_confirmed t m rs = (ev', out', rest')"
      by (cases "wait_for_tx_confirmed t m rs")
    with True Cons.prems have "rest' = rest"
      by (simp add: pending_def Let_def)
    with Cons.IH [OF w] obtain pre where "rs = pre @ rest" by blast
    then have "r # rs = (r # pre) @ rest" by simp
    then show ?thesis by blast
  next
    case False
    with Cons.prems have "rest = rs"
      by (auto simp: pending_def Let_def split: sum.splits bool.splits if_splits)
    then have "r # rs = [r] @ rest" by simp
    then show ?thesis by blast
  qed
qed

lemma await_tx_suffix:
  "await_tx tx rs = (ev, out, rest) \<Longrightarrow> \<exists>pre. rs = pre @ rest"
  by (auto simp: await_tx_def split: json.splits prod.splits outcome.splits
      dest: wait_for_tx_confirmed_suffix)

lemma take_ticket_offer_suffix:
  "take_ticket_offer x offer rs = (ev, out, rest) \<Longrightarrow> rest = rs \<or> rs = hd rs # rest"
  by (auto simp: take_ticket_offer_def Let_def
      split: json.splits sum.splits if_splits list.splits rpc_reply.splits)

lemma try_block_suffix:
  assumes "try_block qty st x offer rs = (ev, out, st', rest)"
  shows "\<exists>pre. rs = pre @ rest"
proof -
  obtain ev0 out0 rest0 where t: "take_ticket_offer x offer rs = (ev0, out0, rest0)"
    by (cases "take_ticket_offer x offer rs")
  from take_ticket_offer_suffix [OF t] obtain pre0 where p0: "rs = pre0 @ rest0"
    by (metis append_Cons append_Nil)
  show ?thesis
  proof (cases "\<exists>ev2 out2. await_tx (extract_tx_id (p_result (case out0 of Returned r \<Rightarrow> r))) rest0 = (ev2, out2, rest)")
    case True
    then obtain pre where "rest0 = pre @ rest" by (auto dest: await_tx_suffix)
    with p0 have "rs = (pre0 @ pre) @ rest" by simp
    then show ?thesis by blast
  next
    case False
    with assms t have "rest = rest0"
      by (auto simp: try_block_def Let_def split: outcome.splits if_splits prod.splits)
    with p0 show ?thesis by blast
  qed
qed

lemma handler_suffix:
  "handler st x msg rs = (ev, out, st', rest) \<Longrightarrow> \<exists>pre. rs = pre @ rest"
  by (auto simp: handler_def split: prod.splits outcome.splits if_splits dest: await_tx_suffix)

lemma handle_error_suffix:
  "handle_error st x e rs = (ev, out, st', rest) \<Longrightarrow> \<exists>pre. rs = pre @ rest"
  by (auto simp: handle_error_def split: error.splits dest: handler_suffix)

subsection \<open>The ways through the try block\<close>

lemma take_ticket_offer_events:
  "take_ticket_offer x offer rs = (ev, out, rest) \<Longrightarrow> ev = [] \<or> ev = [CallTakeOffer x]"
  by (auto simp: take_ticket_offer_def Let_def
      split: json.splits sum.splits if_splits list.splits rpc_reply.splits)

lemma take_ticket_offer_Returned:
  "take_ticket_offer x offer rs = (ev, Returned r, rest) \<Longrightarrow>
   ev = [CallTakeOffer x] \<and> rs = Result (p_result r) # rest
   \<and> offer_txid_of offer = Inr (p_offer_txid r)"
  by (auto simp: take_ticket_offer_def offer_txid_of_def Let_def
      split: json.splits sum.splits if_splits list.splits rpc_reply.splits)

lemma try_block_cases:
  assumes "try_block qty st x offer rs = (ev, out, st', rest)"
  obtains
    (failed) out0 where "take_ticket_offer x offer rs = (ev, out0, rest)"
      "\<forall>r. out0 \<noteq> Returned r" "st' = st" "\<forall>u. out \<noteq> Returned u"
      "\<forall>e. out = Raised e \<longleftrightarrow> out0 = Raised e"
  | (waited) r rest0 ev2 where
      "take_ticket_offer x offer rs = ([CallTakeOffer x], Returned r, rest0)"
      "truthy (extract_tx_id (p_result r))" "bought st + 1 < qty"
      "await_tx (extract_tx_id (p_result r)) rest0 = (ev2, out, rest)"
      "ev = [CallTakeOffer x, Purchased x (extract_tx_id (p_result r))] @ ev2"
      "st' = st\<lparr>purchased := purchased st @ [r], bought := bought st + 1\<rparr>"
  | (last) r where
      "take_ticket_offer x offer rs = ([CallTakeOffer x], Returned r, rest)"
      "truthy (extract_tx_id (p_result r))" "\<not> bought st + 1 < qty" "out = Returned ()"
      "ev = [CallTakeOffer x, Purchased x (extract_tx_id (p_result r))]"
      "st' = st\<lparr>purchased := purchased st @ [r], bought := bought st + 1,
                 last_txid := extract_tx_id (p_result r)\<rparr>"
  | (no_tx) r where
      "take_ticket_offer x offer rs = ([CallTakeOffer x], Returned r, rest)"
      "\<not> truthy (extract_tx_id (p_result r))" "out = Returned ()"
      "ev = [CallTakeOffer x, Purchased x (extract_tx_id (p_result r))]"
      "st' = st\<lparr>purchased := purchased st @ [r], bought := bought st + 1\<rparr>"
proof -
  obtain ev0 out0 rest0 where t: "take_ticket_offer x offer rs = (ev0, out0, rest0)"
    by (cases "take_ticket_offer x offer rs")
  show thesis
  proof (cases out0)
    case (Returned r)
    with t take_ticket_offer_Returned have ev0: "ev0 = [CallTakeOffer x]" by blast
    let ?tx = "extract_tx_id (p_result r)"
    consider "truthy ?tx \<and> bought st + 1 < qty" | "truthy ?tx \<and> \<not> bought st + 1 < qty"
      | "\<not> truthy ?tx" by blast
    then show ?thesis
    proof cases
      case 1
      obtain ev2 out2 rest2 where a: "await_tx ?tx rest0 = (ev2, out2, rest2)"
        by (cases "await_tx ?tx rest0")
      with assms t Returned 1 ev0 show ?thesis
        by (intro waited [of r rest0 ev2]) (auto simp: try_block_def Let_def dry_run_def)
    next
      case 2
      with assms t Returned ev0 show ?thesis
        by (intro last [of r]) (auto simp: try_block_def Let_def dry_run_def)
    next
      case 3
      with assms t Returned ev0 show ?thesis
        by (intro no_tx [of r]) (auto simp: try_block_def Let_def dry_run_def)
    qed
  next
    case (Raised e)
    with assms t show ?thesis
      by (intro failed [of out0]) (auto simp: try_block_def)
  next
    case Starved
    with assms t show ?thesis
      by (intro failed [of out0]) (auto simp: try_block_def)
  next
    case Unmodelled
    with assms t show ?thesis
      by (intro failed [of out0]) (auto simp: try_block_def)
  qed
qed

subsection \<open>The ways through one round of the loop\<close>

lemma iteration_cases:
  assumes "iteration qty st rs = (ev, out, st', rest)"
  obtains
    (stopped) "st' = st" "out \<noteq> Returned Continue" "rest = tl rs"
      "ev = [CallGetOffers] \<or> (\<exists>offers. ev = [CallGetOffers, Refreshed offers])"
  | (tried) reply rs0 offers offer x ev1 out1 st2 where
      "rs = reply # rs0" "refresh_offers reply = Returned offers"
      "find_offer offers (attempted st) = Returned (Some (offer, x))"
      "try_block qty (st\<lparr>attempted := insert x (attempted st)\<rparr>) x offer rs0
         = (ev1, out1, st2, rest)"
      "\<forall>e. out1 \<noteq> Raised e" "ev = CallGetOffers # Refreshed offers # ev1" "st' = st2"
      "out = (case out1 of Returned u \<Rightarrow> Returned Continue | Raised e \<Rightarrow> Raised e
                | Starved \<Rightarrow> Starved | Unmodelled \<Rightarrow> Unmodelled)"
  | (handled) reply rs0 offers offer x ev1 e st2 rest2 ev2 out2 where
      "rs = reply # rs0" "refresh_offers reply = Returned offers"
      "find_offer offers (attempted st) = Returned (Some (offer, x))"
      "try_block qty (st\<lparr>attempted := insert x (attempted st)\<rparr>) x offer rs0
         = (ev1, Raised e, st2, rest2)"
      "handle_error st2 x e rest2 = (ev2, out2, st', rest)"
      "ev = CallGetOffers # Refreshed offers # ev1 @ ev2"
      "out = (case out2 of Returned u \<Rightarrow> Returned Continue | Raised e \<Rightarrow> Raised e
                | Starved \<Rightarrow> Starved | Unmodelled \<Rightarrow> Unmodelled)"
proof (cases rs)
  case Nil
  with assms show ?thesis by (intro stopped) (auto simp: iteration_def)
next
  case (Cons reply rs0)
  show ?thesis
  proof (cases "\<exists>offers offer x. refresh_offers reply = Returned offers
                  \<and> find_offer offers (attempted st) = Returned (Some (offer, x))")
    case False
    with assms Cons show ?thesis
      by (intro stopped)
        (auto simp: iteration_def split: outcome.splits option.splits)
  next
    case True
    then obtain offers offer x where
      f: "refresh_offers reply = Returned offers"
        "find_offer offers (attempted st) = Returned (Some (offer, x))" by blast
    let ?st1 = "st\<lparr>attempted := insert x (attempted st)\<rparr>"
    obtain ev1 out1 st2 rest2 where
      t: "try_block qty ?st1 x offer rs0 = (ev1, out1, st2, rest2)"
      by (cases "try_block qty ?st1 x offer rs0")
    show ?thesis
    proof (cases "\<exists>e. out1 = Raised e")
      case False
      with assms Cons f t show ?thesis
        by (intro tried [of reply rs0 offers offer x ev1 out1 st2])
          (auto simp: iteration_def Let_def split: outcome.splits)
    next
      case True
      then obtain e where e: "out1 = Raised e" by blast
      obtain ev2 out2 st3 rest3 where
        h: "handle_error st2 x e rest2 = (ev2, out2, st3, rest3)"
        by (cases "handle_error st2 x e rest2")
      with assms Cons f t e show ?thesis
        by (intro handled [of reply rs0 offers offer x ev1 e st2 rest2 ev2 out2])
          (auto simp: iteration_def Let_def split: outcome.splits)
    qed
  qed
qed

lemma iteration_suffix:
  assumes "iteration qty st rs = (ev, out, st', rest)"
  shows "\<exists>pre. rs = pre @ rest"
  using assms
proof (cases rule: iteration_cases)
  case stopped
  then have "rs = [] @ rest \<or> rs = [hd rs] @ rest" by (cases rs) simp_all
  then show ?thesis by blast
next
  case (tried reply rs0 offers offer x ev1 out1 st2)
  from try_block_suffix [OF tried(4)] obtain pre where "rs0 = pre @ rest" by blast
  with tried(1) have "rs = (reply # pre) @ rest" by simp
  then show ?thesis by blast
next
  case (handled reply rs0 offers offer x ev1 e st2 rest2 ev2 out2)
  from try_block_suffix [OF handled(4)] obtain pre where "rs0 = pre @ rest2" by blast
  moreover from handle_error_suffix [OF handled(5)] obtain pre' where "rest2 = pre' @ rest"
    by blast
  ultimately have "rs = (reply # pre @ pre') @ rest" using handled(1) by simp
  then show ?thesis by blast
qed

subsection \<open>Messages that are not rejections\<close>





subsection \<open>The attempted set and the purchases\<close>









subsection \<open>The ways through the loop\<close>

lemma main_loop_cases:
  assumes "main_loop qty st rs = (ev, out, st', rest)"
  obtains
    (finished) "\<not> bought st < qty" "ev = []" "out = Returned ()" "st' = st" "rest = rs"
  | (again) ev1 st1 rest1 ev2 where "bought st < qty"
      "iteration qty st rs = (ev1, Returned Continue, st1, rest1)"
      "main_loop qty st1 rest1 = (ev2, out, st', rest)" "ev = ev1 @ ev2"
      "length rest1 < length rs"
  | (left) out1 where "bought st < qty" "iteration qty st rs = (ev, out1, st', rest)"
      "out1 \<noteq> Returned Continue"
      "out = (case out1 of Returned fl \<Rightarrow> Returned () | Raised e \<Rightarrow> Raised e
                | Starved \<Rightarrow> Starved | Unmodelled \<Rightarrow> Unmodelled)"
proof (cases "bought st < qty")
  case False
  with assms show ?thesis
    by (intro finished) (simp_all add: main_loop.simps [of qty st rs])
next
  case True
  obtain ev1 out1 st1 rest1 where it: "iteration qty st rs = (ev1, out1, st1, rest1)"
    by (cases "iteration qty st rs")
  show ?thesis
  proof (cases "out1 = Returned Continue")
    case c: True
    obtain ev2 out2 st2 rest2 where m: "main_loop qty st1 rest1 = (ev2, out2, st2, rest2)"
      by (cases "main_loop qty st1 rest1")
    from it c have "length rest1 < length rs" by (auto dest: iteration_rest)
    with assms True it c m show ?thesis
      by (intro again [of ev1 st1 rest1 ev2]) (simp_all add: main_loop.simps [of qty st rs])
  next
    case False
    with assms True it show ?thesis
      by (intro left [of out1])
        (auto simp: main_loop.simps [of qty st rs] split: outcome.splits flow.splits)
  qed
qed







subsection \<open>Sequencing of purchases and confirmations\<close>

lemma pending_after_append:
  "pending_after p (a @ b) = pending_after (pending_after p a) b"
  by (induction p a rule: pending_after.induct) simp_all

lemma sequenced_append:
  "sequenced p (a @ b) = (sequenced p a \<and> sequenced (pending_after p a) b)"
  by (induction p a rule: sequenced.induct) simp_all

lemma wait_for_tx_confirmed_sequenced:
  "wait_for_tx_confirmed t 1 rs = (ev, out, rest) \<Longrightarrow>
   sequenced p ev
   \<and> pending_after p ev = (if (\<exists>c. out = Returned c) \<and> p = Some t then None else p)"
proof (induction rs arbitrary: ev out rest)
  case Nil
  then show ?case by auto
next
  case (Cons r rs)
  obtain ev' out' rest' where w: "wait_for_tx_confirmed t 1 rs = (ev', out', rest')"
    by (cases "wait_for_tx_confirmed t 1 rs")
  note ih = Cons.IH [OF w]
  from Cons.prems w ih show ?case
    by (auto simp: Let_def at_least_one_def split: sum.splits bool.splits if_splits)
qed

lemma wait_for_tx_confirmed_no_raise:
  "list_all (\<lambda>r. \<not> wait_raises r) rs \<Longrightarrow>
   wait_for_tx_confirmed t 1 rs = (ev, out, rest) \<Longrightarrow> out \<noteq> Raised e"
proof (induction rs arbitrary: ev out rest)
  case Nil
  then show ?case by auto
next
  case (Cons r rs)
  obtain ev' out' rest' where w: "wait_for_tx_confirmed t 1 rs = (ev', out', rest')"
    by (cases "wait_for_tx_confirmed t 1 rs")
  from Cons.prems(1) have "list_all (\<lambda>r. \<not> wait_raises r) rs" "\<not> wait_raises r" by simp_all
  with Cons.IH [OF _ w] Cons.prems(2) w show ?case
    by (auto simp: Let_def wait_raises_def split: sum.splits bool.splits if_splits)
qed

lemma await_tx_sequenced:
  assumes "await_tx tx rs = (ev, out, rest)"
  shows "sequenced p ev"
    and "pending_after p ev = p \<or> pending_after p ev = None"
    and "tx = JStr t \<Longrightarrow> out = Returned u \<Longrightarrow> pending_after (Some t) ev = None"
    and "list_all (\<lambda>r. \<not> wait_raises r) rs \<Longrightarrow> out \<noteq> Raised e"
proof -
  show "sequenced p ev" "pending_after p ev = p \<or> pending_after p ev = None"
    using assms wait_for_tx_confirmed_sequenced [where p = p]
    by (auto simp: await_tx_def split: json.splits prod.splits outcome.splits if_splits)
  show "pending_after (Some t) ev = None" if "tx = JStr t" "out = Returned u"
    using assms that wait_for_tx_confirmed_sequenced [where p = "Some t" and t = t]
    by (auto simp: await_tx_def split: prod.splits outcome.splits if_splits)
  show "out \<noteq> Raised e" if "list_all (\<lambda>r. \<not> wait_raises r) rs"
    using assms that wait_for_tx_confirmed_no_raise [where rs = rs and e = e]
    by (auto simp: await_tx_def split: json.splits prod.splits outcome.splits)
qed


lemma truthy_JStr: "truthy tx \<Longrightarrow> tx = JStr t \<Longrightarrow> t \<noteq> []"
  by auto

lemma falsy_pending: "\<not> truthy tx \<Longrightarrow> pending_after p [Purchased x tx] = p"
  by (cases tx) auto

lemma try_block_sequenced:
  assumes t: "try_block qty st x offer rs = (ev, out, st', rest)"
    and nr: "list_all (\<lambda>r. \<not> wait_raises r) rs"
  shows "sequenced None ev"
    and "out = Raised e \<Longrightarrow> pending_after None ev = None"
    and "out = Returned u \<Longrightarrow> pending_after None ev = None \<or> qty \<le> bought st'"
    and "bought st \<le> bought st'"
proof -
  have "sequenced None ev
      \<and> (out = Raised e \<longrightarrow> pending_after None ev = None)
      \<and> (out = Returned u \<longrightarrow> pending_after None ev = None \<or> qty \<le> bought st')
      \<and> bought st \<le> bought st'"
    using t
  proof (cases rule: try_block_cases)
    case (failed out0)
    from take_ticket_offer_events [OF failed(1)] failed show ?thesis by auto
  next
    case (waited r rest0 ev2)
    let ?tx = "extract_tx_id (p_result r)"
    from take_ticket_offer_Returned [OF waited(1)] nr
    have nr0: "list_all (\<lambda>r. \<not> wait_raises r) rest0" by auto
    note a = await_tx_sequenced [OF waited(4)]
    have seq: "sequenced None ev"
      using waited(5) a(1) by (cases ?tx) (simp_all add: sequenced_append)
    have raised: "out \<noteq> Raised e" using a(4) [OF nr0] .
    have ret: "pending_after None ev = None" if "out = Returned u"
    proof (cases ?tx)
      case (JStr t)
      with waited(2) have "t \<noteq> []" by auto
      with JStr waited(5) a(3) [OF JStr that] show ?thesis
        by (simp add: pending_after_append)
    next
      case JNull
      with waited(5) a(2) [of None] show ?thesis by (simp add: pending_after_append)
    next
      case (JBool b)
      with waited(5) a(2) [of None] show ?thesis by (simp add: pending_after_append)
    next
      case (JInt n)
      with waited(5) a(2) [of None] show ?thesis by (simp add: pending_after_append)
    next
      case (JFloat f)
      with waited(5) a(2) [of None] show ?thesis by (simp add: pending_after_append)
    next
      case (JList xs)
      with waited(5) a(2) [of None] show ?thesis by (simp add: pending_after_append)
    next
      case (JDict d)
      with waited(5) a(2) [of None] show ?thesis by (simp add: pending_after_append)
    qed
    from seq raised ret waited(6) show ?thesis by auto
  next
    case (last r)
    then show ?thesis by (cases "extract_tx_id (p_result r)") auto
  next
    case (no_tx r)
    with falsy_pending [OF no_tx(2), of None x] show ?thesis
      by (cases "extract_tx_id (p_result r)") auto
  qed
  then show "sequenced None ev"
    and "out = Raised e \<Longrightarrow> pending_after None ev = None"
    and "out = Returned u \<Longrightarrow> pending_after None ev = None \<or> qty \<le> bought st'"
    and "bought st \<le> bought st'"
    by simp_all
qed

lemma handler_sequenced:
  assumes "handler st x msg rs = (ev, out, st', rest)"
  shows "sequenced p ev \<and> (pending_after p ev = p \<or> pending_after p ev = None)"
proof (cases "is_rejected msg \<and> truthy (last_txid st)")
  case True
  obtain ev0 out0 rest0 where a: "await_tx (last_txid st) rs = (ev0, out0, rest0)"
    by (cases "await_tx (last_txid st) rs")
  with assms True have "ev = ev0"
    by (auto simp: handler_def split: outcome.splits)
  with await_tx_sequenced(1,2) [OF a, of p] show ?thesis by simp
next
  case False
  with assms show ?thesis
    by (auto simp: handler_def split: if_splits)
qed

lemma handle_error_sequenced:
  assumes "handle_error st x e rs = (ev, out, st', rest)"
  shows "sequenced p ev \<and> (pending_after p ev = p \<or> pending_after p ev = None)"
  using assms handler_sequenced [of st x _ rs ev out st' rest p]
  by (cases e) (auto simp: handle_error_def)

lemma iteration_sequenced:
  assumes it: "iteration qty st rs = (ev, out, st', rest)"
    and nr: "list_all (\<lambda>r. \<not> wait_raises r) rs"
  shows "sequenced None ev
         \<and> (out = Returned Continue \<longrightarrow> pending_after None ev = None \<or> qty \<le> bought st')"
  using it
proof (cases rule: iteration_cases)
  case stopped
  then show ?thesis by auto
next
  case (tried reply rs0 offers offer x ev1 out1 st2)
  from nr tried(1) have nr0: "list_all (\<lambda>r. \<not> wait_raises r) rs0" by simp
  note t = try_block_sequenced [OF tried(4) nr0]
  from tried(8) have "out = Returned Continue \<Longrightarrow> out1 = Returned ()"
    by (cases out1) simp_all
  with t(1) t(3) [of "()"] tried(6,7) show ?thesis by auto
next
  case (handled reply rs0 offers offer x ev1 e st2 rest2 ev2 out2)
  from nr handled(1) have nr0: "list_all (\<lambda>r. \<not> wait_raises r) rs0" by simp
  note t = try_block_sequenced [OF handled(4) nr0]
  from t(2) [of e] have p1: "pending_after None ev1 = None" by simp
  from handle_error_sequenced [OF handled(5), of None]
  have h: "sequenced None ev2" "pending_after None ev2 = None" by auto
  from t(1) p1 h handled(6) show ?thesis
    by (simp add: sequenced_append pending_after_append)
qed

lemma main_loop_sequenced:
  assumes "main_loop qty st rs = (ev, out, st', rest)"
    and "list_all (\<lambda>r. \<not> wait_raises r) rs"
  shows "sequenced None ev"
  using assms
proof (induction "length rs" arbitrary: st rs ev rule: less_induct)
  case less
  from less.prems(1) show ?case
  proof (cases rule: main_loop_cases)
    case finished
    then show ?thesis by simp
  next
    case (again ev1 st1 rest1 ev2)
    from iteration_sequenced [OF again(2) less.prems(2)] have
      i: "sequenced None ev1" "pending_after None ev1 = None \<or> qty \<le> bought st1"
      by simp_all
    from iteration_suffix [OF again(2)] less.prems(2)
    have nr: "list_all (\<lambda>r. \<not> wait_raises r) rest1" by auto
    from i(2) show ?thesis
    proof
      assume "pending_after None ev1 = None"
      with less.hyps [OF again(5) again(3) nr] i(1) again(4) show ?thesis
        by (simp add: sequenced_append)
    next
      assume "qty \<le> bought st1"
      with again(3) have "ev2 = []" by (simp add: main_loop.simps [of qty st1 rest1])
      with i(1) again(4) show ?thesis by simp
    qed
  next
    case (left out1)
    from iteration_sequenced [OF left(2) less.prems(2)] show ?thesis by simp
  qed
qed


lemma buy_tickets_events:
  assumes "main_loop qty initial_state rs = (ev1, out1, st1, rest1)"
  shows "\<exists>ev'. fst (buy_tickets qty rs) = ev1 @ ev' \<and> (\<forall>p. sequenced p ev')"
proof (cases "out1 = Returned () \<and> truthy (last_txid st1) \<and> \<not> dry_run")
  case True
  obtain ev' out' rest' where a: "await_tx (last_txid st1) rest1 = (ev', out', rest')"
    by (cases "await_tx (last_txid st1) rest1")
  with assms True have "fst (buy_tickets qty rs) = ev1 @ ev'"
    by (simp add: buy_tickets_def)
  with await_tx_sequenced(1) [OF a] show ?thesis by blast
next
  case False
  with assms have "fst (buy_tickets qty rs) = ev1 @ []"
    by (cases out1) (auto simp: buy_tickets_def)
  then show ?thesis by (intro exI [of _ "[]"]) simp
qed

text \<open>
  C1 (amended). Provided no reply of the node carries a confirmation count that makes
  the wait raise (the count \<open>-1\<close> of an orphaned transaction, or a count that is not a
  number), every run is sequenced: once a purchase has returned a result from which a
  transaction id is read, no \<^verbatim>\<open>takeoffer\<close> is submitted until a poll of that transaction
  has returned at least 1 confirmation. So after each successful \<^verbatim>\<open>takeoffer\<close> with a
  transaction id and more tickets still to buy the program blocks in
  \<^verbatim>\<open>wait_for_tx_confirmed\<close> before it attempts the next offer.
\<close>

theorem purchases_sequenced:
  "list_all (\<lambda>r. \<not> wait_raises r) rs \<longrightarrow> sequenced None (fst (buy_tickets qty rs))"
proof
  assume nr: "list_all (\<lambda>r. \<not> wait_raises r) rs"
  obtain ev1 out1 st1 rest1 where m: "main_loop qty initial_state rs = (ev1, out1, st1, rest1)"
    by (cases "main_loop qty initial_state rs")
  from buy_tickets_events [OF m] obtain ev' where
    e: "fst (buy_tickets qty rs) = ev1 @ ev'" "\<forall>p. sequenced p ev'" by blast
  from main_loop_sequenced [OF m nr] e show "sequenced None (fst (buy_tickets qty rs))"
    by (simp add: sequenced_append)
qed

theorem purchases_sequenced_witness:
  "list_all (\<lambda>r. \<not> wait_raises r)
     [Result pool2, took ''t1'', confirmations 0, confirmations 1, Result pool2,
      took ''t2'', confirmations 1]
   \<and> sequenced None (fst (buy_tickets 2
       [Result pool2, took ''t1'', confirmations 0, confirmations 1, Result pool2,
        took ''t2'', confirmations 1]))
   \<and> visible (fst (buy_tickets 2
       [Result pool2, took ''t1'', confirmations 0, confirmations 1, Result pool2,
        took ''t2'', confirmations 1]))
     = [CallGetOffers, CallTakeOffer ''oa'', Purchased ''oa'' (JStr ''t1''),
        CallGetTransaction ''t1'', Sleep 5000, CallGetTransaction ''t1'',
        Confirmed ''t1'' (JInt 1),
        CallGetOffers, CallTakeOffer ''ob'', Purchased ''ob'' (JStr ''t2''),
        CallGetTransaction ''t2'', Confirmed ''t2'' (JInt 1)]
   \<and> \<not> sequenced None
         [CallTakeOffer ''oa'', Purchased ''oa'' (JStr ''t1''), CallGetTransaction ''t1'',
          CallTakeOffer ''ob'']"
proof -
  let ?rs = "[Result pool2, took ''t1'', confirmations 0, confirmations 1, Result pool2,
      took ''t2'', confirmations 1]"
  have nr: "list_all (\<lambda>r. \<not> wait_raises r) ?rs" by code_simp
  from purchases_sequenced [where rs = ?rs and qty = 2] nr
  have s: "sequenced None (fst (buy_tickets 2 ?rs))" by (rule mp)
  have v: "visible (fst (buy_tickets 2 ?rs))
     = [CallGetOffers, CallTakeOffer ''oa'', Purchased ''oa'' (JStr ''t1''),
        CallGetTransaction ''t1'', Sleep 5000, CallGetTransaction ''t1'',
        Confirmed ''t1'' (JInt 1),
        CallGetOffers, CallTakeOffer ''ob'', Purchased ''ob'' (JStr ''t2''),
        CallGetTransaction ''t2'', Confirmed ''t2'' (JInt 1)]"
    by code_simp
  have n: "\<not> sequenced None
         [CallTakeOffer ''oa'', Purchased ''oa'' (JStr ''t1''), CallGetTransaction ''t1'',
          CallTakeOffer ''ob'']"
    by simp
  from nr s v n show ?thesis by (intro conjI)
qed

text \<open>
  The claim as stated fails where no transaction id can be read off the result of a
  successful \<^verbatim>\<open>takeoffer\<close> (here the result is \<^verbatim>\<open>None\<close>): the purchase is counted, more
  tickets remain to buy, and the next offer is taken with no call of \<^verbatim>\<open>gettransaction\<close>
  in between.
\<close>

theorem purchase_without_wait_counterexample:
  "visible (fst (buy_tickets 2
       [Result pool2, Result JNull, Result pool2, took ''t2'', confirmations 1]))
   = [CallGetOffers, CallTakeOffer ''oa'', Purchased ''oa'' JNull,
      CallGetOffers, CallTakeOffer ''ob'', Purchased ''ob'' (JStr ''t2''),
      CallGetTransaction ''t2'', Confirmed ''t2'' (JInt 1)]
   \<and> bought (fst (snd (snd (buy_tickets 2
       [Result pool2, Result JNull, Result pool2, took ''t2'', confirmations 1])))) = 2"
  by code_simp

subsection \<open>What the provisos exclude\<close>

text \<open>
  An orphaned transaction makes the inline wait raise inside the \<^verbatim>\<open>try\<close> block; the
  handler of the loop catches the error and the next offer is taken although the
  transaction of the previous purchase was never seen confirmed.
\<close>

lemma orphaned_wait_example:
  "visible (fst (buy_tickets 2
       [Result pool2, took ''t1'', confirmations (- 1), Result pool2, took ''t2'',
        confirmations 1]))
   = [CallGetOffers, CallTakeOffer ''oa'', Purchased ''oa'' (JStr ''t1''),
      CallGetTransaction ''t1'',
      CallGetOffers, CallTakeOffer ''ob'', Purchased ''ob'' (JStr ''t2''),
      CallGetTransaction ''t2'', Confirmed ''t2'' (JInt 1)]
   \<and> errors (fst (snd (snd (buy_tickets 2
       [Result pool2, took ''t1'', confirmations (- 1), Result pool2, took ''t2'',
        confirmations 1])))) = [(''oa'', orphaned_msg ''t1'')]"
  by code_simp

text \<open>
  When the id of the orphaned transaction contains the word "rejected", the message of
  that error is taken for a rejection: the offer already purchased is removed from the
  attempted set and is purchased again.
\<close>

lemma rejected_word_example:
  "purchased_ids (fst (snd (snd (buy_tickets 2
       [Result pool1, took ''00rejected00'', confirmations (- 1), Result pool1, took ''t2'',
        confirmations 1]))))
   = [JStr ''oa'', JStr ''oa'']"
  by code_simp

end
